theory Spec2Isabelle
  imports Complex_Main "HOL-Library.Char_ord" "HOL-Library.List_Lexorder" "HOL-Library.Multiset"
begin

section \<open>Strings\<close>

text \<open>
  Python strings are modelled as \<^typ>\<open>string\<close>, restricted to ASCII: \<open>str.strip()\<close>
  removes the ASCII whitespace characters from both ends, \<open>str.upper()\<close> maps the
  letters a--z to A--Z and leaves every other character alone, and
  \<open>s.startswith(p)\<close> compares the first \<open>len(p)\<close> characters of \<open>s\<close> with \<open>p\<close>.
\<close>

definition isspace :: "char \<Rightarrow> bool" where
  "isspace c = (c \<in> set [CHR '' '', CHR 0x09, CHR 0x0A, CHR 0x0B, CHR 0x0C, CHR 0x0D,
                            CHR 0x1C, CHR 0x1D, CHR 0x1E, CHR 0x1F])"

definition strip :: "string \<Rightarrow> string" where
  "strip s = rev (dropWhile isspace (rev (dropWhile isspace s)))"

definition ascii_lowercase :: string where
  "ascii_lowercase = ''abcdefghijklmnopqrstuvwxyz''"

definition ascii_uppercase :: string where
  "ascii_uppercase = ''ABCDEFGHIJKLMNOPQRSTUVWXYZ''"

definition upper_char :: "char \<Rightarrow> char" where
  "upper_char c =
     (case map_of (zip ascii_lowercase ascii_uppercase) c of Some u \<Rightarrow> u | None \<Rightarrow> c)"

definition upper :: "string \<Rightarrow> string" where
  "upper s = map upper_char s"

definition startswith :: "string \<Rightarrow> string \<Rightarrow> bool" where
  "startswith s p = (take (length p) s = p)"

text \<open>
  The specification's vocabulary, independent of \<^const>\<open>upper\<close>: two characters are equal
  up to case when they are the same character or the two cases of one ASCII letter; a
  string begins case-insensitively with a keyword when it is at least as long and agrees
  with it, position by position, up to case; a string contains another
  case-insensitively when some position of it begins with the other in that sense.
\<close>

definition ci_eq :: "char \<Rightarrow> char \<Rightarrow> bool" where
  "ci_eq a b = (a = b \<or> (a, b) \<in> set (zip ascii_lowercase ascii_uppercase)
      \<or> (b, a) \<in> set (zip ascii_lowercase ascii_uppercase))"

definition begins_with_ci :: "string \<Rightarrow> string \<Rightarrow> bool" where
  "begins_with_ci kw s = (length kw \<le> length s \<and> list_all2 ci_eq (take (length kw) s) kw)"

fun contains_ci :: "string \<Rightarrow> string \<Rightarrow> bool" where
  "contains_ci f [] = (f = [])"
| "contains_ci f (x # xs) = (begins_with_ci f (x # xs) \<or> contains_ci f xs)"

section \<open>The store\<close>

text \<open>
  One record per table of \<open>init_database\<close>, one field per column (prefixed with the
  table, since several tables share column names). Identifiers are integers, timestamps
  are integers (a count of seconds, ordered as the \<open>CURRENT_TIMESTAMP\<close> texts are), and
  amounts of money are exact rationals; the rounding of the binary floating point numbers
  that SQLite and pandas compute with is not modelled. A column declared \<open>DECIMAL\<close> has
  numeric affinity: it keeps a number without a fractional part as an integer and any
  other number as a float, so a price or a subtotal read from its table is an integer
  exactly when the rational is whole; it keeps a byte string as it is. The total of an
  order is therefore a number or a byte string. A table is the list of its rows
  in insertion order. Every table has an \<open>AUTOINCREMENT\<close> key: the database keeps, per
  table, the largest key handed out so far, and the next row gets that plus one. The
  \<open>reviews\<close> table is created and never touched, so it is left out.
\<close>

datatype sql_value = Number rat | Blob "nat list"

definition is_whole :: "rat \<Rightarrow> bool" where
  "is_whole r = (of_int \<lfloor>r\<rfloor> = r)"

record category_row =
  cg_category_id :: int
  cg_category_name :: string
  cg_description :: string
  cg_created_at :: int

record product_row =
  pr_product_id :: int
  pr_product_name :: string
  pr_category_id :: "int option"
  pr_price :: rat
  pr_stock_quantity :: int
  pr_description :: string
  pr_image_url :: string
  pr_created_at :: int
  pr_updated_at :: int

record customer_row =
  cu_customer_id :: int
  cu_first_name :: string
  cu_last_name :: string
  cu_email :: string
  cu_password_hash :: string
  cu_phone :: string
  cu_address :: string
  cu_city :: string
  cu_state :: string
  cu_zip_code :: string
  cu_country :: string
  cu_created_at :: int

record order_row =
  od_order_id :: int
  od_customer_id :: int
  od_order_date :: int
  od_total_amount :: sql_value
  od_status :: string
  od_shipping_address :: string
  od_payment_method :: string

record order_item_row =
  oi_order_item_id :: int
  oi_order_id :: int
  oi_product_id :: int
  oi_quantity :: int
  oi_unit_price :: rat
  oi_subtotal :: rat

record cart_row =
  ca_cart_id :: int
  ca_customer_id :: int
  ca_product_id :: int
  ca_quantity :: int
  ca_added_at :: int

record database =
  categories :: "category_row list"
  products :: "product_row list"
  customers :: "customer_row list"
  orders :: "order_row list"
  order_items :: "order_item_row list"
  cart :: "cart_row list"
  seq_categories :: int
  seq_products :: int
  seq_customers :: int
  seq_orders :: int
  seq_order_items :: int
  seq_cart :: int

text \<open>\<open>init_database\<close> on a fresh file: every table exists and is empty.\<close>

definition init_database :: database where
  "init_database =
     \<lparr>categories = [], products = [], customers = [], orders = [], order_items = [],
      cart = [], seq_categories = 0, seq_products = 0, seq_customers = 0, seq_orders = 0,
      seq_order_items = 0, seq_cart = 0\<rparr>"

text \<open>
  Exceptions that leave a function are values. \<open>KeyError\<close> is Python's, for a missing
  dictionary key; \<open>OperationalError\<close> is sqlite3's, for a statement or a commit that the
  database engine could not carry out (a locked or unwritable file).
\<close>

datatype error = KeyError string | OperationalError

text \<open>
  Every function opens its own connection with \<open>create_connection()\<close>, which returns
  \<open>None\<close> when \<open>sqlite3.connect\<close> raises. The parameter \<open>conn\<close> of the functions below
  is \<open>True\<close> when a connection was returned. Each function takes the database as it is
  stored when the call begins and returns, beside its result, the database as it is stored
  when the call ends. The statements of a connection run in a transaction that sqlite3
  opens before the first \<open>INSERT\<close>, \<open>UPDATE\<close> or \<open>DELETE\<close>; they reach the stored
  database at \<open>conn.commit()\<close>, and a connection that goes away without a commit leaves
  the stored database as it was.
\<close>

section \<open>Credential store\<close>

text \<open>
  \<open>hashlib.sha256(...).hexdigest()\<close> belongs to Python's library; it enters as the
  parameter \<open>sha256_hexdigest\<close>, a function from strings to strings.
\<close>

definition hash_password :: "(string \<Rightarrow> string) \<Rightarrow> string \<Rightarrow> string" where
  "hash_password sha256_hexdigest password = sha256_hexdigest password"


text \<open>
  The dictionary \<open>data\<close> of \<open>register_customer\<close>, as the registration form builds it:
  ten keys, each a string.
\<close>

record registration =
  rg_first_name :: string
  rg_last_name :: string
  rg_email :: string
  rg_password :: string
  rg_phone :: string
  rg_address :: string
  rg_city :: string
  rg_state :: string
  rg_zip_code :: string
  rg_country :: string

definition new_customer :: "(string \<Rightarrow> string) \<Rightarrow> int \<Rightarrow> database \<Rightarrow> registration \<Rightarrow> customer_row" where
  "new_customer sha256_hexdigest now db data =
     \<lparr>cu_customer_id = seq_customers db + 1,
      cu_first_name = rg_first_name data, cu_last_name = rg_last_name data,
      cu_email = rg_email data,
      cu_password_hash = hash_password sha256_hexdigest (rg_password data),
      cu_phone = rg_phone data, cu_address = rg_address data, cu_city = rg_city data,
      cu_state = rg_state data, cu_zip_code = rg_zip_code data,
      cu_country = rg_country data, cu_created_at = now\<rparr>"

text \<open>
  The \<open>INSERT\<close> raises when the \<open>UNIQUE\<close> constraint on \<open>email\<close> is violated; the
  \<open>except\<close> branch returns \<open>False\<close> without a commit.
\<close>

definition register_customer ::
  "(string \<Rightarrow> string) \<Rightarrow> bool \<Rightarrow> int \<Rightarrow> database \<Rightarrow> registration \<Rightarrow> bool \<times> database" where
  "register_customer sha256_hexdigest conn now db data =
     (if conn then
        (if rg_email data \<in> set (map cu_email (customers db)) then (False, db)
         else (True, db\<lparr>customers := customers db @ [new_customer sha256_hexdigest now db data],
                         seq_customers := seq_customers db + 1\<rparr>))
      else (False, db))"

section \<open>Catalog service\<close>

text \<open>
  The dictionary \<open>data\<close> of \<open>add_product\<close>: a field is \<open>None\<close> when the key is absent
  from the dictionary, and holds the value of the key otherwise.
\<close>

record product_data =
  pd_name :: "string option"
  pd_category_id :: "int option"
  pd_price :: "rat option"
  pd_stock :: "int option"
  pd_description :: "string option"
  pd_image_url :: "string option"

text \<open>
  The tuple \<open>values\<close> is built inside \<open>if conn:\<close> and before the \<open>try\<close>, so a
  missing key raises \<open>KeyError\<close> out of the function; only \<open>image_url\<close> is read with
  \<open>data.get\<close> and a default. With values of these types the \<open>INSERT\<close> violates no
  constraint of the \<open>products\<close> table.
\<close>

definition add_product ::
  "bool \<Rightarrow> int \<Rightarrow> database \<Rightarrow> product_data \<Rightarrow> (error + bool) \<times> database" where
  "add_product conn now db data =
     (if conn then
        (case pd_name data of None \<Rightarrow> (Inl (KeyError ''name''), db) | Some name \<Rightarrow>
         case pd_category_id data of None \<Rightarrow> (Inl (KeyError ''category_id''), db) | Some category_id \<Rightarrow>
         case pd_price data of None \<Rightarrow> (Inl (KeyError ''price''), db) | Some price \<Rightarrow>
         case pd_stock data of None \<Rightarrow> (Inl (KeyError ''stock''), db) | Some stock \<Rightarrow>
         case pd_description data of None \<Rightarrow> (Inl (KeyError ''description''), db) | Some description \<Rightarrow>
           (Inr True,
            db\<lparr>products := products db @
                  [\<lparr>pr_product_id = seq_products db + 1, pr_product_name = name,
                    pr_category_id = Some category_id, pr_price = price,
                    pr_stock_quantity = stock, pr_description = description,
                    pr_image_url = (case pd_image_url data of None \<Rightarrow> [] | Some u \<Rightarrow> u),
                    pr_created_at = now, pr_updated_at = now\<rparr>],
               seq_products := seq_products db + 1\<rparr>))
      else (Inr False, db))"







text \<open>
  \<open>add_category\<close>: the \<open>UNIQUE\<close> constraint on \<open>category_name\<close> makes the \<open>INSERT\<close>
  raise for a name already present; the \<open>except\<close> branch returns \<open>False\<close>.
\<close>

definition add_category :: "bool \<Rightarrow> int \<Rightarrow> database \<Rightarrow> string \<Rightarrow> string \<Rightarrow> bool \<times> database" where
  "add_category conn now db name description =
     (if conn then
        (if name \<in> set (map cg_category_name (categories db)) then (False, db)
         else (True, db\<lparr>categories := categories db @
                           [\<lparr>cg_category_id = seq_categories db + 1, cg_category_name = name,
                             cg_description = description, cg_created_at = now\<rparr>],
                         seq_categories := seq_categories db + 1\<rparr>))
      else (False, db))"

text \<open>
  \<open>get_products\<close>: every product with the name of its category (\<open>LEFT JOIN\<close>: \<open>None\<close>
  when no category has the product's \<open>category_id\<close>), newest first. Here and in
  \<open>get_orders\<close>, rows with equal timestamps stay in table order, where SQLite promises
  no order.
\<close>

definition get_products :: "bool \<Rightarrow> database \<Rightarrow> (product_row \<times> string option) list" where
  "get_products conn db =
     (if conn then
        sort_key (\<lambda>r. - pr_created_at (fst r))
          (map (\<lambda>p. (p, map_option cg_category_name
                          (find (\<lambda>g. Some (cg_category_id g) = pr_category_id p) (categories db))))
             (products db))
      else [])"

text \<open>
  The product listing of the "Shop" tab in \<open>main\<close> filters with
  \<open>products['product_name'].str.contains(search, case=False)\<close>. pandas reads \<open>search\<close>
  as a regular expression (\<open>regex=True\<close> is the default) and keeps the names in which
  \<open>re.search\<close> finds a match, ignoring case. The model covers the patterns made of
  ordinary characters, which match themselves up to case, and of \<open>.\<close>, which matches
  any character but a newline; \<open>parse_pattern\<close> returns \<open>None\<close> for a pattern with any
  other special character of Python's \<open>re\<close>, and so does everything built on it.
\<close>

datatype atom = Lit char | Any_char

definition re_special :: "char \<Rightarrow> bool" where
  "re_special c = (c \<in> set ''.^$*+?{}[]()|'' \<or> c = CHR 0x5C)"

fun parse_pattern :: "string \<Rightarrow> atom list option" where
  "parse_pattern [] = Some []"
| "parse_pattern (c # cs) =
     (if c = CHR ''.'' then map_option (Cons Any_char) (parse_pattern cs)
      else if re_special c then None
      else map_option (Cons (Lit c)) (parse_pattern cs))"

fun match_here :: "atom list \<Rightarrow> string \<Rightarrow> bool" where
  "match_here [] s = True"
| "match_here (a # as) [] = False"
| "match_here (Lit c # as) (x # xs) = (upper_char c = upper_char x \<and> match_here as xs)"
| "match_here (Any_char # as) (x # xs) = (x \<noteq> CHR 0x0A \<and> match_here as xs)"

fun re_search :: "atom list \<Rightarrow> string \<Rightarrow> bool" where
  "re_search as [] = match_here as []"
| "re_search as (x # xs) = (match_here as (x # xs) \<or> re_search as xs)"

definition str_contains :: "string \<Rightarrow> string \<Rightarrow> bool option" where
  "str_contains pat s = map_option (\<lambda>as. re_search as s) (parse_pattern pat)"

text \<open>
  The listing itself (\<open>main\<close>, "Apply filters" and "Apply sorting"): the search filter
  applies when \<open>search\<close> is not empty, the category filter when the selection is not
  \<open>All\<close>; the rows are then sorted by name, by price, or by price descending. Strings
  are ordered as Python orders them, character by character. Rows with equal keys stay
  in the order they had, where pandas promises no order.
\<close>

definition list_products ::
  "string \<Rightarrow> string \<Rightarrow> string \<Rightarrow> (product_row \<times> string option) list
     \<Rightarrow> (product_row \<times> string option) list option" where
  "list_products search category_filter sort_by rows =
     (case (if search \<noteq> [] then parse_pattern search else Some []) of
        None \<Rightarrow> None
      | Some as \<Rightarrow>
          let found = (if search \<noteq> [] then filter (\<lambda>r. re_search as (pr_product_name (fst r))) rows
                       else rows);
              in_category = (if category_filter \<noteq> ''All''
                             then filter (\<lambda>r. snd r = Some category_filter) found else found)
          in Some (if sort_by = ''Name'' then sort_key (\<lambda>r. pr_product_name (fst r)) in_category
                   else if sort_by = ''Price: Low to High''
                   then sort_key (\<lambda>r. pr_price (fst r)) in_category
                   else sort_key (\<lambda>r. - pr_price (fst r)) in_category))"

section \<open>Cart service\<close>

definition in_cart :: "int \<Rightarrow> int \<Rightarrow> cart_row \<Rightarrow> bool" where
  "in_cart customer_id product_id c =
     (ca_customer_id c = customer_id \<and> ca_product_id c = product_id)"

definition add_to_cart :: "bool \<Rightarrow> int \<Rightarrow> database \<Rightarrow> int \<Rightarrow> int \<Rightarrow> int \<Rightarrow> bool \<times> database" where
  "add_to_cart conn now db customer_id product_id quantity =
     (if conn then
        (case find (in_cart customer_id product_id) (cart db) of
           Some existing \<Rightarrow>
             (True, db\<lparr>cart := map (\<lambda>c. if in_cart customer_id product_id c
                                          then c\<lparr>ca_quantity := ca_quantity c + quantity\<rparr>
                                          else c) (cart db)\<rparr>)
         | None \<Rightarrow>
             (True, db\<lparr>cart := cart db @
                         [\<lparr>ca_cart_id = seq_cart db + 1, ca_customer_id = customer_id,
                           ca_product_id = product_id, ca_quantity = quantity,
                           ca_added_at = now\<rparr>],
                       seq_cart := seq_cart db + 1\<rparr>))
      else (False, db))"

text \<open>
  A row of the data frame of \<open>get_cart_items\<close>: a cart line. The subtotal is computed by
  SQLite as \<open>c.quantity * p.price\<close> and comes back as a Python \<open>int\<close> when the price is
  kept as an integer, and as a Python \<open>float\<close> when it is kept as a float.
\<close>

datatype number = Py_int int | Py_float rat

fun value_of :: "number \<Rightarrow> rat" where
  "value_of (Py_int n) = of_int n"
| "value_of (Py_float r) = r"

fun is_int :: "number \<Rightarrow> bool" where
  "is_int (Py_int n) = True"
| "is_int (Py_float r) = False"

record cart_line =
  cl_cart_id :: int
  cl_customer_id :: int
  cl_product_id :: int
  cl_quantity :: int
  cl_added_at :: int
  cl_product_name :: string
  cl_price :: rat
  cl_image_url :: string
  cl_subtotal :: number

definition cart_line_of :: "cart_row \<Rightarrow> product_row \<Rightarrow> cart_line" where
  "cart_line_of c p =
     \<lparr>cl_cart_id = ca_cart_id c, cl_customer_id = ca_customer_id c,
      cl_product_id = ca_product_id c, cl_quantity = ca_quantity c,
      cl_added_at = ca_added_at c, cl_product_name = pr_product_name p,
      cl_price = pr_price p, cl_image_url = pr_image_url p,
      cl_subtotal = (if is_whole (pr_price p) then Py_int (ca_quantity c * \<lfloor>pr_price p\<rfloor>)
                     else Py_float (of_int (ca_quantity c) * pr_price p))\<rparr>"

definition get_cart_items :: "bool \<Rightarrow> database \<Rightarrow> int \<Rightarrow> cart_line list" where
  "get_cart_items conn db customer_id =
     (if conn then
        concat (map (\<lambda>c. map (cart_line_of c)
                            (filter (\<lambda>p. ca_product_id c = pr_product_id p) (products db)))
                  (filter (\<lambda>c. ca_customer_id c = customer_id) (cart db)))
      else [])"

definition clear_cart :: "bool \<Rightarrow> database \<Rightarrow> int \<Rightarrow> database" where
  "clear_cart conn db customer_id =
     (if conn then db\<lparr>cart := filter (\<lambda>c. ca_customer_id c \<noteq> customer_id) (cart db)\<rparr>
      else db)"

section \<open>Order service\<close>

text \<open>
  The two statements of the loop body of \<open>create_order\<close>, on the database as the
  connection sees it inside its transaction.
\<close>

definition insert_order_item :: "int \<Rightarrow> cart_line \<Rightarrow> database \<Rightarrow> database" where
  "insert_order_item order_id item w =
     w\<lparr>order_items := order_items w @
          [\<lparr>oi_order_item_id = seq_order_items w + 1, oi_order_id = order_id,
            oi_product_id = cl_product_id item, oi_quantity = cl_quantity item,
            oi_unit_price = cl_price item, oi_subtotal = value_of (cl_subtotal item)\<rparr>],
       seq_order_items := seq_order_items w + 1\<rparr>"

definition update_stock :: "int \<Rightarrow> int \<Rightarrow> database \<Rightarrow> database" where
  "update_stock quantity product_id w =
     w\<lparr>products := map (\<lambda>p. if pr_product_id p = product_id
                              then p\<lparr>pr_stock_quantity := pr_stock_quantity p - quantity\<rparr>
                              else p) (products w)\<rparr>"

text \<open>
  \<open>create_order\<close> has no \<open>try\<close>: an exception of \<open>cursor.execute\<close> or of
  \<open>conn.commit()\<close> leaves the function, and the connection goes away with its
  transaction uncommitted. Which statements fail is up to the database engine: the
  parameter \<open>faults\<close> tells, for the \<open>n\<close>-th statement the call issues (the \<open>INSERT\<close>
  of the order is number 0, the commit comes last), whether it raises. The loop runs on
  \<open>w\<close>, the database inside the transaction.
\<close>

fun add_order_items ::
  "(nat \<Rightarrow> bool) \<Rightarrow> nat \<Rightarrow> int \<Rightarrow> cart_line list \<Rightarrow> database \<Rightarrow> error + database" where
  "add_order_items faults n order_id [] w = Inr w"
| "add_order_items faults n order_id (item # items) w =
     (if faults n then Inl OperationalError
      else if faults (n + 1) then Inl OperationalError
      else add_order_items faults (n + 2) order_id items
             (update_stock (cl_quantity item) (cl_product_id item)
                (insert_order_item order_id item w)))"

text \<open>
  \<open>total = cart_items['subtotal'].sum()\<close>. pandas gives the subtotal column the dtype
  \<open>int64\<close> when every subtotal of the frame is an \<open>int\<close>, and \<open>float64\<close> when one of them
  is a \<open>float\<close>; the sum is then a \<open>numpy.int64\<close> or a \<open>numpy.float64\<close>. A frame without
  rows, as \<open>pd.read_sql\<close> returns it, has columns of dtype \<open>object\<close>, whose sum is the
  Python \<open>int\<close> 0.
\<close>

datatype scalar = Python_int int | Numpy_int64 int | Numpy_float64 rat

definition subtotal_sum :: "cart_line list \<Rightarrow> scalar" where
  "subtotal_sum cart_items =
     (if cart_items = [] then Python_int 0
      else if list_all (\<lambda>item. is_int (cl_subtotal item)) cart_items
      then Numpy_int64 (sum_list (map (\<lambda>item. \<lfloor>value_of (cl_subtotal item)\<rfloor>) cart_items))
      else Numpy_float64 (sum_list (map (\<lambda>item. value_of (cl_subtotal item)) cart_items)))"

text \<open>
  What sqlite3 stores for a parameter of an \<open>INSERT\<close>. It binds a Python \<open>int\<close> or
  \<open>float\<close> as a number, and \<open>numpy.float64\<close> is a \<open>float\<close>. \<open>numpy.int64\<close> is neither: sqlite3
  takes it for a buffer of bytes and stores the eight bytes of the 64-bit integer,
  lowest byte first, as a \<open>BLOB\<close>.
\<close>

definition int64_bytes :: "int \<Rightarrow> nat list" where
  "int64_bytes n = map (\<lambda>k. nat ((n div 256 ^ k) mod 256)) [0..<8]"

fun bind_parameter :: "scalar \<Rightarrow> sql_value" where
  "bind_parameter (Python_int n) = Number (of_int n)"
| "bind_parameter (Numpy_float64 r) = Number r"
| "bind_parameter (Numpy_int64 n) = Blob (int64_bytes n)"

definition insert_order :: "int \<Rightarrow> int \<Rightarrow> scalar \<Rightarrow> string \<Rightarrow> string \<Rightarrow> database \<Rightarrow> database" where
  "insert_order now customer_id total_amount shipping_address payment_method w =
     w\<lparr>orders := orders w @
          [\<lparr>od_order_id = seq_orders w + 1, od_customer_id = customer_id,
            od_order_date = now, od_total_amount = bind_parameter total_amount,
            od_status = ''pending'', od_shipping_address = shipping_address,
            od_payment_method = payment_method\<rparr>],
       seq_orders := seq_orders w + 1\<rparr>"

definition create_order ::
  "bool \<Rightarrow> (nat \<Rightarrow> bool) \<Rightarrow> int \<Rightarrow> database \<Rightarrow> int \<Rightarrow> cart_line list \<Rightarrow> string \<Rightarrow> string
     \<Rightarrow> (error + int option) \<times> database" where
  "create_order conn faults now db customer_id cart_items shipping_address payment_method =
     (if conn then
        let total_amount = subtotal_sum cart_items in
        if faults 0 then (Inl OperationalError, db)
        else
          let w = insert_order now customer_id total_amount shipping_address payment_method db;
              order_id = seq_orders w
          in case add_order_items faults 1 order_id cart_items w of
               Inl e \<Rightarrow> (Inl e, db)
             | Inr w' \<Rightarrow>
                 if faults (1 + 2 * length cart_items) then (Inl OperationalError, db)
                 else (Inr (Some order_id), w')
      else (Inr None, db))"

text \<open>
  \<open>get_orders\<close>: \<open>if customer_id:\<close> is Python's truth test, false for \<open>None\<close> and for
  \<open>0\<close>. Each row is an order with the first name, last name and email of its customer
  (an inner join: an order without a customer row is dropped), latest order first.
\<close>

definition truthy :: "int option \<Rightarrow> bool" where
  "truthy v = (case v of None \<Rightarrow> False | Some n \<Rightarrow> n \<noteq> 0)"

definition orders_with_customer ::
  "database \<Rightarrow> order_row list \<Rightarrow> (order_row \<times> string \<times> string \<times> string) list" where
  "orders_with_customer db os =
     concat (map (\<lambda>ord. map (\<lambda>c. (ord, cu_first_name c, cu_last_name c, cu_email c))
                          (filter (\<lambda>c. od_customer_id ord = cu_customer_id c) (customers db)))
               os)"

definition get_orders ::
  "bool \<Rightarrow> database \<Rightarrow> int option \<Rightarrow> (order_row \<times> string \<times> string \<times> string) list" where
  "get_orders conn db customer_id =
     (if conn then
        (if truthy customer_id then
           sort_key (\<lambda>r. - od_order_date (fst r))
             (orders_with_customer db
                (filter (\<lambda>ord. Some (od_customer_id ord) = customer_id) (orders db)))
         else
           sort_key (\<lambda>r. - od_order_date (fst r)) (orders_with_customer db (orders db)))
      else [])"

text \<open>
  The handler of the "Place Order" button in \<open>main\<close>: the checkout form exists only
  when the cart read at the top of the tab is not empty; the handler creates the order
  from those lines and clears the cart when the returned identifier is truthy.
\<close>

definition place_order_clicked ::
  "bool \<Rightarrow> (nat \<Rightarrow> bool) \<Rightarrow> int \<Rightarrow> database \<Rightarrow> int \<Rightarrow> string \<Rightarrow> string
     \<Rightarrow> (error + int option) \<times> database" where
  "place_order_clicked conn faults now db customer_id shipping_address payment_method =
     (let cart_items = get_cart_items conn db customer_id in
      if cart_items = [] then (Inr None, db)
      else case create_order conn faults now db customer_id cart_items
                  shipping_address payment_method of
             (Inl e, db') \<Rightarrow> (Inl e, db')
           | (Inr order_id, db') \<Rightarrow>
               (Inr order_id, if truthy order_id then clear_cart conn db' customer_id else db'))"

section \<open>Ad-hoc query gateway\<close>

text \<open>
  The "Execute Query" button of \<open>main\<close>. \<open>read_sql\<close> stands for \<open>pd.read_sql\<close> on the
  open connection: it returns a table or raises. The second component of the result
  lists the query texts handed to the database.
\<close>

definition query_allowed :: "string \<Rightarrow> bool" where
  "query_allowed custom_query = startswith (upper (strip custom_query)) ''SELECT''"

datatype 'r query_outcome = Rejected | Not_connected | Query_error | Query_result 'r

definition execute_query ::
  "bool \<Rightarrow> (string \<Rightarrow> error + 'r) \<Rightarrow> string \<Rightarrow> 'r query_outcome \<times> string list" where
  "execute_query conn read_sql custom_query =
     (if query_allowed custom_query then
        (if conn then
           (case read_sql custom_query of
              Inl e \<Rightarrow> (Query_error, [custom_query])
            | Inr result_df \<Rightarrow> (Query_result result_df, [custom_query]))
         else (Not_connected, []))
      else (Rejected, []))"

section \<open>Reachable states\<close>

text \<open>
  The operations that write, as the user interface or any other caller can issue them,
  each with the state of the environment at the time: whether the database could be
  opened, the clock, and the statements that fail. An operation that raises leaves the
  stored database as it was.
\<close>

datatype operation =
  Register registration
| Add_category string string
| Add_product product_data
| Add_to_cart int int int
| Clear_cart int
| Create_order int "cart_line list" string string
| Place_order int string string

fun step ::
  "(string \<Rightarrow> string) \<Rightarrow> database \<Rightarrow> bool \<times> int \<times> (nat \<Rightarrow> bool) \<times> operation \<Rightarrow> database" where
  "step h db (conn, now, faults, Register data) = snd (register_customer h conn now db data)"
| "step h db (conn, now, faults, Add_category name description) =
     snd (add_category conn now db name description)"
| "step h db (conn, now, faults, Add_product data) = snd (add_product conn now db data)"
| "step h db (conn, now, faults, Add_to_cart customer_id product_id quantity) =
     snd (add_to_cart conn now db customer_id product_id quantity)"
| "step h db (conn, now, faults, Clear_cart customer_id) = clear_cart conn db customer_id"
| "step h db (conn, now, faults, Create_order customer_id cart_items address payment) =
     snd (create_order conn faults now db customer_id cart_items address payment)"
| "step h db (conn, now, faults, Place_order customer_id address payment) =
     snd (place_order_clicked conn faults now db customer_id address payment)"

definition run ::
  "(string \<Rightarrow> string) \<Rightarrow> (bool \<times> int \<times> (nat \<Rightarrow> bool) \<times> operation) list \<Rightarrow> database" where
  "run h events = foldl (step h) init_database events"

section \<open>Vocabulary of the theorems\<close>

text \<open>
  What a successful \<open>create_order\<close> is expected to leave behind: the order items of the
  lines, numbered from the key after \<open>s\<close>, and, for a product, the quantity that the
  lines order of it.
\<close>

fun order_items_for :: "int \<Rightarrow> int \<Rightarrow> cart_line list \<Rightarrow> order_item_row list" where
  "order_items_for order_id s [] = []"
| "order_items_for order_id s (item # items) =
     \<lparr>oi_order_item_id = s + 1, oi_order_id = order_id, oi_product_id = cl_product_id item,
      oi_quantity = cl_quantity item, oi_unit_price = cl_price item,
      oi_subtotal = value_of (cl_subtotal item)\<rparr> # order_items_for order_id (s + 1) items"

definition ordered_quantity :: "int \<Rightarrow> cart_line list \<Rightarrow> int" where
  "ordered_quantity product_id items =
     sum_list (map cl_quantity (filter (\<lambda>l. cl_product_id l = product_id) items))"

definition stock_less :: "cart_line list \<Rightarrow> product_row \<Rightarrow> product_row" where
  "stock_less items p =
     p\<lparr>pr_stock_quantity := pr_stock_quantity p - ordered_quantity (pr_product_id p) items\<rparr>"

text \<open>The store after an order for the lines has been written in full.\<close>

definition order_placed ::
  "int \<Rightarrow> database \<Rightarrow> int \<Rightarrow> cart_line list \<Rightarrow> string \<Rightarrow> string \<Rightarrow> database" where
  "order_placed now db customer_id items shipping_address payment_method =
     db\<lparr>orders := orders db @
           [\<lparr>od_order_id = seq_orders db + 1, od_customer_id = customer_id,
             od_order_date = now, od_total_amount = bind_parameter (subtotal_sum items),
             od_status = ''pending'', od_shipping_address = shipping_address,
             od_payment_method = payment_method\<rparr>],
        seq_orders := seq_orders db + 1,
        order_items := order_items db @
           order_items_for (seq_orders db + 1) (seq_order_items db) items,
        seq_order_items := seq_order_items db + int (length items),
        products := map (stock_less items) (products db)\<rparr>"

text \<open>
  Operations that stay within the stock: a product is added with a stock that is not
  negative, and the lines of an order ask, of every product, for no more than its stock
  at that moment. A sequence of operations stays within the stock when each one does in
  the state it runs in.
\<close>

definition lines_within_stock :: "database \<Rightarrow> cart_line list \<Rightarrow> bool" where
  "lines_within_stock db items =
     list_all (\<lambda>p. ordered_quantity (pr_product_id p) items \<le> pr_stock_quantity p) (products db)"

fun within_stock :: "database \<Rightarrow> bool \<times> int \<times> (nat \<Rightarrow> bool) \<times> operation \<Rightarrow> bool" where
  "within_stock db (conn, now, faults, Add_product data) =
     (case pd_stock data of None \<Rightarrow> True | Some stock \<Rightarrow> 0 \<le> stock)"
| "within_stock db (conn, now, faults, Create_order customer_id items address payment) =
     lines_within_stock db items"
| "within_stock db (conn, now, faults, Place_order customer_id address payment) =
     lines_within_stock db (get_cart_items conn db customer_id)"
| "within_stock db (conn, now, faults, Register data) = True"
| "within_stock db (conn, now, faults, Add_category name description) = True"
| "within_stock db (conn, now, faults, Add_to_cart customer_id product_id quantity) = True"
| "within_stock db (conn, now, faults, Clear_cart customer_id) = True"

fun all_within_stock ::
  "(string \<Rightarrow> string) \<Rightarrow> database \<Rightarrow> (bool \<times> int \<times> (nat \<Rightarrow> bool) \<times> operation) list \<Rightarrow> bool" where
  "all_within_stock h db [] = True"
| "all_within_stock h db (e # es) = (within_stock db e \<and> all_within_stock h (step h db e) es)"

definition stock_not_negative :: "database \<Rightarrow> bool" where
  "stock_not_negative db = list_all (\<lambda>p. 0 \<le> pr_stock_quantity p) (products db)"

text \<open>The (customer, product) pairs of the cart entries, in table order.\<close>

definition cart_pairs :: "database \<Rightarrow> (int \<times> int) list" where
  "cart_pairs db = map (\<lambda>c. (ca_customer_id c, ca_product_id c)) (cart db)"

text \<open>Example data for the closed instances of the theorems.\<close>

definition no_faults :: "nat \<Rightarrow> bool" where
  "no_faults n = False"

definition fault_at :: "nat \<Rightarrow> nat \<Rightarrow> bool" where
  "fault_at k n = (n = k)"

definition widget :: product_data where
  "widget = \<lparr>pd_name = Some ''widget-9000'', pd_category_id = Some 1, pd_price = Some (5 / 2),
             pd_stock = Some 1, pd_description = Some ''a widget'', pd_image_url = None\<rparr>"

definition gadget :: product_data where
  "gadget = \<lparr>pd_name = Some ''Gadget'', pd_category_id = Some 1, pd_price = Some 4,
             pd_stock = Some 10, pd_description = Some ''a gadget'', pd_image_url = None\<rparr>"

definition alice :: registration where
  "alice = \<lparr>rg_first_name = ''Alice'', rg_last_name = ''A'', rg_email = ''alice@example.org'',
            rg_password = ''secret'', rg_phone = [], rg_address = [], rg_city = [],
            rg_state = [], rg_zip_code = [], rg_country = []\<rparr>"

definition buy_one :: "(bool \<times> int \<times> (nat \<Rightarrow> bool) \<times> operation) list" where
  "buy_one =
     [(True, 1, no_faults, Add_product widget), (True, 2, no_faults, Add_to_cart 1 1 1),
      (True, 3, no_faults, Place_order 1 ''home'' ''PayPal'')]"

definition buy_two :: "(bool \<times> int \<times> (nat \<Rightarrow> bool) \<times> operation) list" where
  "buy_two =
     [(True, 1, no_faults, Add_product widget), (True, 2, no_faults, Add_to_cart 1 1 1),
      (True, 3, no_faults, Add_to_cart 1 1 1),
      (True, 4, no_faults, Place_order 1 ''home'' ''PayPal'')]"

definition alice_buys :: "(bool \<times> int \<times> (nat \<Rightarrow> bool) \<times> operation) list" where
  "alice_buys =
     [(True, 1, no_faults, Register alice), (True, 2, no_faults, Add_product gadget),
      (True, 3, no_faults, Add_to_cart 1 1 2),
      (True, 4, no_faults, Place_order 1 ''home'' ''PayPal''),
      (True, 5, no_faults, Add_to_cart 1 1 1),
      (True, 6, no_faults, Place_order 1 ''work'' ''Credit Card'')]"

definition widget_rows :: "(product_row \<times> string option) list" where
  "widget_rows = get_products True (snd (add_product True 1 init_database widget))"


definition gadget_cart :: database where
  "gadget_cart =
     snd (add_to_cart True 2 (snd (add_product True 1 init_database gadget)) 1 1 2)"

definition shop :: database where
  "shop = snd (add_to_cart True 4 (snd (add_to_cart True 3
            (snd (add_product True 2 (snd (add_product True 1 init_database widget)) gadget))
            1 2 3)) 1 1 1)"

section \<open>The ad-hoc query gateway accepts SELECT only\<close>

text \<open>
  \<^const>\<open>strip\<close> removes a run of whitespace from each end and nothing else; what is left
  neither begins nor ends with whitespace.
\<close>

lemma strip_decomp:
  "s = takeWhile isspace s @ strip s @ rev (takeWhile isspace (rev (dropWhile isspace s)))"
proof -
  let ?d = "dropWhile isspace s"
  have "rev ?d = takeWhile isspace (rev ?d) @ dropWhile isspace (rev ?d)"
    by (simp only: takeWhile_dropWhile_id)
  then have "rev (rev ?d) = rev (takeWhile isspace (rev ?d) @ dropWhile isspace (rev ?d))"
    by (rule arg_cong)
  then have "?d = strip s @ rev (takeWhile isspace (rev ?d))"
    by (simp only: rev_rev_ident rev_append strip_def)
  moreover have "s = takeWhile isspace s @ ?d"
    by (simp only: takeWhile_dropWhile_id)
  ultimately show ?thesis by (simp only:)
qed

lemma strip_no_space_ends:
  assumes ne: "strip s \<noteq> []"
  shows "\<not> isspace (hd (strip s)) \<and> \<not> isspace (last (strip s))"
proof -
  let ?d = "dropWhile isspace s"
  let ?e = "dropWhile isspace (rev ?d)"
  have e: "?e \<noteq> []" using ne by (simp add: strip_def)
  then have "\<not> isspace (hd ?e)" by (rule hd_dropWhile)
  then have l: "\<not> isspace (last (strip s))"
    using e by (simp add: strip_def last_rev)
  have dne: "?d \<noteq> []" using e by (metis dropWhile.simps(1) rev.simps(1))
  then have hd: "\<not> isspace (hd ?d)" by (rule hd_dropWhile)
  have "?d = strip s @ rev (takeWhile isspace (rev ?d))"
    by (metis strip_def rev_append rev_rev_ident takeWhile_dropWhile_id)
  then have "hd ?d = hd (strip s)" using ne by (metis hd_append2)
  with hd l show ?thesis by simp
qed

text \<open>
  Uppercasing a character gives a letter of the keyword exactly when the character is that
  letter in either case.
\<close>

lemma upper_char_keyword:
  "upper_char a = CHR ''S'' \<longleftrightarrow> ci_eq a (CHR ''S'')"
  "upper_char a = CHR ''E'' \<longleftrightarrow> ci_eq a (CHR ''E'')"
  "upper_char a = CHR ''L'' \<longleftrightarrow> ci_eq a (CHR ''L'')"
  "upper_char a = CHR ''C'' \<longleftrightarrow> ci_eq a (CHR ''C'')"
  "upper_char a = CHR ''T'' \<longleftrightarrow> ci_eq a (CHR ''T'')"
  unfolding upper_char_def ci_eq_def ascii_lowercase_def ascii_uppercase_def
  by (simp_all split: if_splits)

lemma map_eq_list_all2: "map f xs = ys \<longleftrightarrow> list_all2 (\<lambda>x y. f x = y) xs ys"
  by (induction xs arbitrary: ys) (auto simp: list_all2_Cons1)

lemma begins_with_ci_take:
  "list_all2 ci_eq (take (length kw) s) kw \<longleftrightarrow> begins_with_ci kw s"
  unfolding begins_with_ci_def by (auto dest: list_all2_lengthD)

lemma startswith_select:
  "startswith (upper t) ''SELECT'' \<longleftrightarrow> begins_with_ci ''SELECT'' t"
proof -
  have "startswith (upper t) ''SELECT'' \<longleftrightarrow>
        map upper_char (take (length ''SELECT'') t) = ''SELECT''"
    by (simp only: startswith_def upper_def take_map)
  also have "\<dots> \<longleftrightarrow>
        list_all2 (\<lambda>a k. upper_char a = k) (take (length ''SELECT'') t) ''SELECT''"
    by (rule map_eq_list_all2)
  also have "\<dots> \<longleftrightarrow> list_all2 ci_eq (take (length ''SELECT'') t) ''SELECT''"
    by (simp only: list_all2_Cons2 list_all2_Nil2 upper_char_keyword)
  also have "\<dots> \<longleftrightarrow> begins_with_ci ''SELECT'' t"
    by (rule begins_with_ci_take)
  finally show ?thesis .
qed

lemma query_allowed_iff: "query_allowed q \<longleftrightarrow> begins_with_ci ''SELECT'' (strip q)"
  by (simp only: query_allowed_def startswith_select)

lemma execute_query_rejected:
  "fst (execute_query conn read_sql q) = Rejected \<longleftrightarrow> \<not> query_allowed q"
  by (simp add: execute_query_def split: sum.splits)

lemma query_allowed_example: "query_allowed ''  select * from products''"
  by code_simp

lemma query_refused_example: "\<not> query_allowed ''DROP TABLE products''"
  by code_simp

text \<open>
  Claim C5. The gateway lets a query text through exactly when the text, with the
  whitespace at both ends removed, begins with \<open>SELECT\<close> in any mixture of cases.
  A text that does not is rejected and nothing reaches the database. The text
  \<open>"  select * from products"\<close> is let through; \<open>"DROP TABLE products"\<close> is rejected.
\<close>

theorem query_gateway_select_only:
  "(fst (execute_query conn read_sql q) \<noteq> Rejected
      \<longleftrightarrow> begins_with_ci ''SELECT'' (strip q)) \<and>
   (\<not> begins_with_ci ''SELECT'' (strip q)
      \<longrightarrow> execute_query conn read_sql q = (Rejected, [])) \<and>
   fst (execute_query conn read_sql ''  select * from products'') \<noteq> Rejected \<and>
   execute_query conn read_sql ''DROP TABLE products'' = (Rejected, [])"
proof (intro conjI impI)
  show "fst (execute_query conn read_sql q) \<noteq> Rejected
      \<longleftrightarrow> begins_with_ci ''SELECT'' (strip q)"
    by (simp only: execute_query_rejected query_allowed_iff not_not)
next
  assume "\<not> begins_with_ci ''SELECT'' (strip q)"
  then have "\<not> query_allowed q" by (simp only: query_allowed_iff not_False_eq_True)
  then show "execute_query conn read_sql q = (Rejected, [])"
    by (simp add: execute_query_def)
next
  show "fst (execute_query conn read_sql ''  select * from products'') \<noteq> Rejected"
    using query_allowed_example by (simp only: execute_query_rejected not_not)
next
  show "execute_query conn read_sql ''DROP TABLE products'' = (Rejected, [])"
    using query_refused_example by (simp add: execute_query_def)
qed

text \<open>
  The theorem at two texts: one that is rejected, one in mixed case that is let through.
\<close>

theorem query_gateway_select_only_witness:
  "\<not> begins_with_ci ''SELECT'' (strip ''  delete from cart'') \<and>
   execute_query True (\<lambda>q. Inr (0::nat)) ''  delete from cart'' = (Rejected, []) \<and>
   begins_with_ci ''SELECT'' (strip ''  SeLeCt 1 '') \<and>
   fst (execute_query True (\<lambda>q. Inr (0::nat)) ''  SeLeCt 1 '') \<noteq> Rejected"
proof -
  have no: "\<not> begins_with_ci ''SELECT'' (strip ''  delete from cart'')"
    by code_simp
  have yes: "begins_with_ci ''SELECT'' (strip ''  SeLeCt 1 '')"
    by code_simp
  from no yes
    query_gateway_select_only [of True "\<lambda>q. Inr (0::nat)" "''  delete from cart''"]
    query_gateway_select_only [of True "\<lambda>q. Inr (0::nat)" "''  SeLeCt 1 ''"]
  show ?thesis by blast
qed

section \<open>Placing an order is all or nothing\<close>

text \<open>
  The loop of \<open>create_order\<close>, when no statement fails, appends one order item per line
  and takes each line's quantity from the stock of its product.
\<close>

lemma stock_less_Nil: "stock_less [] p = p"
  by (simp add: stock_less_def ordered_quantity_def)

lemma stock_less_Cons:
  "stock_less (item # items) p =
     stock_less items (if pr_product_id p = cl_product_id item
                       then p\<lparr>pr_stock_quantity := pr_stock_quantity p - cl_quantity item\<rparr>
                       else p)"
  by (simp add: stock_less_def ordered_quantity_def)

lemma add_order_items_result:
  "add_order_items faults n order_id items w = Inr w' \<Longrightarrow>
     w' = w\<lparr>order_items := order_items w @ order_items_for order_id (seq_order_items w) items,
            seq_order_items := seq_order_items w + int (length items),
            products := map (stock_less items) (products w)\<rparr>"
proof (induction items arbitrary: n w)
  case Nil
  then show ?case by (simp add: stock_less_Nil)
next
  case (Cons item items)
  let ?w1 = "update_stock (cl_quantity item) (cl_product_id item)
               (insert_order_item order_id item w)"
  from Cons.prems have rec: "add_order_items faults (n + 2) order_id items ?w1 = Inr w'"
    by (simp split: if_splits)
  have "w' = ?w1\<lparr>order_items := order_items ?w1 @ order_items_for order_id (seq_order_items ?w1) items,
            seq_order_items := seq_order_items ?w1 + int (length items),
            products := map (stock_less items) (products ?w1)\<rparr>"
    by (rule Cons.IH [OF rec])
  then show ?case
    by (simp add: update_stock_def insert_order_item_def stock_less_Cons o_def)
qed

lemma add_order_items_error:
  "add_order_items faults n order_id items w = Inl e \<Longrightarrow> e = OperationalError"
  by (induction items arbitrary: n w) (auto split: if_splits)

lemma add_order_items_no_fault:
  "(\<forall>k. \<not> faults k) \<Longrightarrow> \<exists>w'. add_order_items faults n order_id items w = Inr w'"
  by (induction items arbitrary: n w) simp_all

lemma create_order_cases:
  assumes "create_order conn faults now db customer_id items address payment = (r, db')"
  shows "(r = Inr (Some (seq_orders db + 1)) \<and>
          db' = order_placed now db customer_id items address payment) \<or>
         ((r = Inr None \<or> r = Inl OperationalError) \<and> db' = db)"
proof (cases "conn \<and> \<not> faults 0")
  case False
  with assms show ?thesis by (auto simp: create_order_def Let_def split: if_splits)
next
  case True
  let ?w = "insert_order now customer_id (subtotal_sum items) address payment db"
  show ?thesis
  proof (cases "add_order_items faults 1 (seq_orders ?w) items ?w")
    case (Inl e)
    then have "e = OperationalError" by (rule add_order_items_error)
    with Inl True assms show ?thesis by (simp add: create_order_def Let_def)
  next
    case (Inr w')
    have w': "w' = order_placed now db customer_id items address payment"
      using add_order_items_result [OF Inr]
      by (simp add: insert_order_def order_placed_def)
    have "seq_orders ?w = seq_orders db + 1" by (simp add: insert_order_def)
    with Inr True assms w' show ?thesis
      by (auto simp: create_order_def Let_def split: if_splits)
  qed
qed

lemma create_order_succeeds:
  assumes "conn" and "\<forall>k. \<not> faults k"
  shows "fst (create_order conn faults now db customer_id items address payment)
           = Inr (Some (seq_orders db + 1))"
proof -
  let ?w = "insert_order now customer_id (subtotal_sum items) address payment db"
  obtain w' where "add_order_items faults 1 (seq_orders ?w) items ?w = Inr w'"
    using add_order_items_no_fault [OF assms(2)] by blast
  moreover have "seq_orders ?w = seq_orders db + 1" by (simp add: insert_order_def)
  ultimately show ?thesis using assms by (simp add: create_order_def Let_def)
qed

lemma length_order_items_for: "length (order_items_for order_id s items) = length items"
  by (induction items arbitrary: s) simp_all

text \<open>
  Claim C1. Every call of \<open>create_order\<close> ends in one of two ways. Either it returns the
  new order identifier and the stored database holds all of its writes: one more order
  row, one more order item row per cart line, and every product's stock less the quantity
  the lines order of it. Or it returns \<open>None\<close> (no connection) or raises, and the stored
  database is the one the call began with: no order row, no order item row, no change of
  stock. With a connection and no failing statement it is the first.
\<close>

theorem create_order_atomic:
  assumes "create_order conn faults now db customer_id items address payment = (r, db')"
  shows "((r = Inr (Some (seq_orders db + 1)) \<and>
           db' = order_placed now db customer_id items address payment \<and>
           length (orders db') = length (orders db) + 1 \<and>
           length (order_items db') = length (order_items db) + length items \<and>
           products db' = map (stock_less items) (products db)) \<or>
          ((r = Inr None \<or> r = Inl OperationalError) \<and> db' = db)) \<and>
         (conn \<and> (\<forall>k. \<not> faults k) \<longrightarrow> r = Inr (Some (seq_orders db + 1)))"
proof (intro conjI impI)
  from create_order_cases [OF assms]
  show "(r = Inr (Some (seq_orders db + 1)) \<and>
           db' = order_placed now db customer_id items address payment \<and>
           length (orders db') = length (orders db) + 1 \<and>
           length (order_items db') = length (order_items db) + length items \<and>
           products db' = map (stock_less items) (products db)) \<or>
          ((r = Inr None \<or> r = Inl OperationalError) \<and> db' = db)"
    by (auto simp: order_placed_def length_order_items_for)
next
  assume "conn \<and> (\<forall>k. \<not> faults k)"
  then show "r = Inr (Some (seq_orders db + 1))"
    using create_order_succeeds [of conn faults now db customer_id items address payment] assms
    by simp
qed

text \<open>
  At the example shop: the transaction of an order whose fourth statement fails holds,
  at that moment, the order row, the first order item and the first stock update. None
  of them is in the stored database afterwards, as the instance of the theorem below
  shows.
\<close>

lemma writes_before_the_fault:
  "map_sum id (\<lambda>w. (length (orders w), length (order_items w),
                     map pr_stock_quantity (products w)))
     (add_order_items no_faults 1 1 (take 1 (get_cart_items True shop 1))
        (insert_order 9 1 (Numpy_float64 (29 / 2)) ''home'' ''PayPal'' shop))
   = Inr (1, 1, [1, 7])"
  by code_simp

text \<open>
  The theorem at the example shop, whose customer 1 has two lines in the cart. When the
  fourth statement fails (the \<open>INSERT\<close> of the second order item, after the order row, the
  first order item and the first stock update were written inside the transaction), the
  stored database is unchanged; when none fails, the order is there in full.
\<close>

theorem create_order_atomic_witness:
  "create_order True (fault_at 3) 9 shop 1 (get_cart_items True shop 1) ''home'' ''PayPal''
     = (Inl OperationalError, shop) \<and>
   create_order True no_faults 9 shop 1 (get_cart_items True shop 1) ''home'' ''PayPal''
     = (Inr (Some 1), order_placed 9 shop 1 (get_cart_items True shop 1) ''home'' ''PayPal'') \<and>
   length (orders (order_placed 9 shop 1 (get_cart_items True shop 1) ''home'' ''PayPal'')) = 1 \<and>
   length (order_items (order_placed 9 shop 1 (get_cart_items True shop 1) ''home'' ''PayPal'')) = 2 \<and>
   map pr_stock_quantity (products shop) = [1, 10] \<and>
   map pr_stock_quantity
     (products (order_placed 9 shop 1 (get_cart_items True shop 1) ''home'' ''PayPal'')) = [0, 7]"
proof -
  let ?items = "get_cart_items True shop 1"
  have bad: "create_order True (fault_at 3) 9 shop 1 ?items ''home'' ''PayPal''
     = (Inl OperationalError, shop)"
    by code_simp
  have good: "create_order True no_faults 9 shop 1 ?items ''home'' ''PayPal''
     = (Inr (Some 1), order_placed 9 shop 1 ?items ''home'' ''PayPal'')"
    by code_simp
  have l1: "length (orders shop) = 0" by code_simp
  have l2: "length (order_items shop) = 0" by code_simp
  have l3: "length ?items = 2" by code_simp
  have s1: "map pr_stock_quantity (products shop) = [1, 10]" by code_simp
  have s2: "map pr_stock_quantity (map (stock_less ?items) (products shop)) = [0, 7]"
    by code_simp
  from create_order_atomic [OF bad] create_order_atomic [OF good] bad good l1 l2 l3 s1 s2
  show ?thesis by simp
qed

section \<open>Stock and orders\<close>

text \<open>
  Every operation keeps the stock from going negative as long as it stays within the
  stock; \<open>create_order\<close> has no check of its own.
\<close>

lemma stock_less_not_negative:
  "list_all (\<lambda>p. ordered_quantity (pr_product_id p) items \<le> pr_stock_quantity p) ps \<Longrightarrow>
   list_all (\<lambda>p. 0 \<le> pr_stock_quantity p) (map (stock_less items) ps)"
  by (induction ps) (simp_all add: stock_less_def)

lemma create_order_not_negative:
  assumes "stock_not_negative db" and "lines_within_stock db items"
  shows "stock_not_negative (snd (create_order conn faults now db customer_id items address payment))"
proof -
  obtain r db' where
    eq: "create_order conn faults now db customer_id items address payment = (r, db')"
    by (cases "create_order conn faults now db customer_id items address payment")
  from create_order_cases [OF eq] show ?thesis
  proof
    assume "r = Inr (Some (seq_orders db + 1)) \<and>
        db' = order_placed now db customer_id items address payment"
    then have "products db' = map (stock_less items) (products db)"
      by (simp add: order_placed_def)
    with assms(2) eq show ?thesis
      by (simp add: stock_not_negative_def lines_within_stock_def stock_less_not_negative)
  next
    assume "(r = Inr None \<or> r = Inl OperationalError) \<and> db' = db"
    with assms(1) eq show ?thesis by simp
  qed
qed

lemma products_clear_cart: "products (clear_cart conn db customer_id) = products db"
  by (simp add: clear_cart_def)

lemma place_order_clicked_products:
  "products (snd (place_order_clicked conn faults now db customer_id address payment)) = products db \<or>
   products (snd (place_order_clicked conn faults now db customer_id address payment)) =
     products (snd (create_order conn faults now db customer_id
                      (get_cart_items conn db customer_id) address payment))"
  by (auto simp: place_order_clicked_def Let_def products_clear_cart
           split: prod.splits sum.splits)

lemma step_not_negative:
  assumes "stock_not_negative db" and "within_stock db e"
  shows "stock_not_negative (step h db e)"
proof -
  obtain conn now faults op where e: "e = (conn, now, faults, op)"
    by (cases e) auto
  show ?thesis
  proof (cases op)
    case (Register data)
    with assms e show ?thesis
      by (simp add: register_customer_def stock_not_negative_def)
  next
    case (Add_category name description)
    with assms e show ?thesis
      by (simp add: add_category_def stock_not_negative_def)
  next
    case (Add_product data)
    with assms e show ?thesis
      by (auto simp: add_product_def stock_not_negative_def split: option.splits)
  next
    case (Add_to_cart customer_id product_id quantity)
    with assms e show ?thesis
      by (simp add: add_to_cart_def stock_not_negative_def split: option.splits)
  next
    case (Clear_cart customer_id)
    with assms e show ?thesis
      by (simp add: clear_cart_def stock_not_negative_def)
  next
    case (Create_order customer_id items address payment)
    with assms e show ?thesis
      by (simp add: create_order_not_negative)
  next
    case (Place_order customer_id address payment)
    with assms e have "lines_within_stock db (get_cart_items conn db customer_id)"
      by simp
    from create_order_not_negative [OF assms(1) this]
      place_order_clicked_products [of conn faults now db customer_id address payment]
      assms(1)
    show ?thesis unfolding e Place_order
      by (auto simp: stock_not_negative_def)
  qed
qed

lemma foldl_step_not_negative:
  "stock_not_negative db \<Longrightarrow> all_within_stock h db events \<Longrightarrow>
   stock_not_negative (foldl (step h) db events)"
  by (induction events arbitrary: db) (simp_all add: step_not_negative)

lemma init_not_negative: "stock_not_negative init_database"
  by (simp add: stock_not_negative_def init_database_def)

text \<open>
  Claim C2 says that no sequence of operations drives a stock below zero. It fails: a
  product is added with a stock of one, a customer adds it to the cart twice, one unit
  each time, and places the order. \<open>create_order\<close> subtracts two from the stock of one.
\<close>

theorem stock_goes_negative:
  "map pr_stock_quantity (products (run id buy_two)) = [- 1]"
  by code_simp

text \<open>
  Claim C2, amended. In every state reached from the empty store by operations that stay
  within the stock (products are added with a stock that is not negative, and the lines
  of every order ask, of each product, for no more than its stock at that moment), no
  product has a negative stock. \<open>create_order\<close> itself checks nothing: after a
  successful call every product's stock is its stock before the call less the quantity
  the lines order of it.
\<close>

theorem stock_not_negative_within_stock:
  "(all_within_stock h init_database events \<longrightarrow> stock_not_negative (run h events)) \<and>
   (create_order conn faults now db customer_id items address payment = (Inr (Some order_id), db')
      \<longrightarrow> products db' = map (stock_less items) (products db))"
proof (intro conjI impI)
  assume "all_within_stock h init_database events"
  with init_not_negative show "stock_not_negative (run h events)"
    unfolding run_def by (rule foldl_step_not_negative)
next
  assume "create_order conn faults now db customer_id items address payment
            = (Inr (Some order_id), db')"
  from create_order_cases [OF this]
  show "products db' = map (stock_less items) (products db)"
    by (auto simp: order_placed_def)
qed

text \<open>
  The theorem at a sequence that buys the one unit in stock, and at the order of the
  example shop. The sequence of the counterexample does not stay within the stock.
\<close>

theorem stock_not_negative_within_stock_witness:
  "all_within_stock id init_database buy_one \<and>
   stock_not_negative (run id buy_one) \<and>
   map pr_stock_quantity (products (run id buy_one)) = [0] \<and>
   \<not> all_within_stock id init_database buy_two \<and>
   create_order True no_faults 9 shop 1 (get_cart_items True shop 1) ''home'' ''PayPal''
     = (Inr (Some 1), order_placed 9 shop 1 (get_cart_items True shop 1) ''home'' ''PayPal'') \<and>
   products (order_placed 9 shop 1 (get_cart_items True shop 1) ''home'' ''PayPal'')
     = map (stock_less (get_cart_items True shop 1)) (products shop)"
proof -
  have a: "all_within_stock id init_database buy_one" by code_simp
  have b: "map pr_stock_quantity (products (run id buy_one)) = [0]" by code_simp
  have c: "\<not> all_within_stock id init_database buy_two" by code_simp
  have d: "create_order True no_faults 9 shop 1 (get_cart_items True shop 1) ''home'' ''PayPal''
     = (Inr (Some 1), order_placed 9 shop 1 (get_cart_items True shop 1) ''home'' ''PayPal'')"
    by code_simp
  from a b c d
    stock_not_negative_within_stock [of id buy_one True no_faults 9 shop 1
      "get_cart_items True shop 1" "''home''" "''PayPal''" 1
      "order_placed 9 shop 1 (get_cart_items True shop 1) ''home'' ''PayPal''"]
  show ?thesis by blast
qed

section \<open>The amounts of an order\<close>

text \<open>
  \<open>get_cart_items\<close> computes each line's subtotal as quantity times the product's
  price; \<open>create_order\<close> copies quantity, price and subtotal of each line into the order
  item. No operation rewrites an order item once it is stored.
\<close>

lemma get_cart_items_subtotal:
  "list_all (\<lambda>l. value_of (cl_subtotal l) = of_int (cl_quantity l) * cl_price l)
     (get_cart_items conn db customer_id)"
  by (auto simp: get_cart_items_def list_all_iff cart_line_of_def is_whole_def)

lemma order_items_for_columns:
  "map oi_unit_price (order_items_for order_id s items) = map cl_price items"
  "map oi_quantity (order_items_for order_id s items) = map cl_quantity items"
  "map oi_subtotal (order_items_for order_id s items) = map (\<lambda>l. value_of (cl_subtotal l)) items"
  "map oi_product_id (order_items_for order_id s items) = map cl_product_id items"
  by (induction items arbitrary: s) simp_all

lemma order_items_for_subtotal:
  "list_all (\<lambda>l. value_of (cl_subtotal l) = of_int (cl_quantity l) * cl_price l) items \<Longrightarrow>
   list_all (\<lambda>r. oi_order_id r = order_id \<and>
                  oi_subtotal r = of_int (oi_quantity r) * oi_unit_price r)
     (order_items_for order_id s items)"
  by (induction items arbitrary: s) simp_all

lemma place_order_clicked_cases:
  "snd (place_order_clicked conn faults now db customer_id address payment) = db \<or>
   snd (place_order_clicked conn faults now db customer_id address payment) =
     snd (create_order conn faults now db customer_id
            (get_cart_items conn db customer_id) address payment) \<or>
   snd (place_order_clicked conn faults now db customer_id address payment) =
     clear_cart conn (snd (create_order conn faults now db customer_id
            (get_cart_items conn db customer_id) address payment)) customer_id"
  by (auto simp: place_order_clicked_def Let_def split: prod.splits sum.splits)

lemma create_order_order_items:
  "\<exists>more. order_items (snd (create_order conn faults now db customer_id items address payment))
     = order_items db @ more"
proof -
  obtain r db' where
    eq: "create_order conn faults now db customer_id items address payment = (r, db')"
    by (cases "create_order conn faults now db customer_id items address payment")
  from create_order_cases [OF eq] eq show ?thesis
    by (auto simp: order_placed_def)
qed

lemma step_order_items: "\<exists>more. order_items (step h db e) = order_items db @ more"
proof -
  obtain conn now faults op where e: "e = (conn, now, faults, op)"
    by (cases e) auto
  show ?thesis
  proof (cases op)
    case (Register data)
    with e show ?thesis by (simp add: register_customer_def)
  next
    case (Add_category name description)
    with e show ?thesis by (simp add: add_category_def)
  next
    case (Add_product data)
    with e show ?thesis by (simp add: add_product_def split: option.splits)
  next
    case (Add_to_cart customer_id product_id quantity)
    with e show ?thesis by (simp add: add_to_cart_def split: option.splits)
  next
    case (Clear_cart customer_id)
    with e show ?thesis by (simp add: clear_cart_def)
  next
    case (Create_order customer_id items address payment)
    with e show ?thesis by (simp add: create_order_order_items)
  next
    case (Place_order customer_id address payment)
    have c: "order_items (clear_cart conn d customer_id) = order_items d" for d
      by (simp add: clear_cart_def)
    from place_order_clicked_cases [of conn faults now db customer_id address payment]
      create_order_order_items [of conn faults now db customer_id
        "get_cart_items conn db customer_id" address payment]
    show ?thesis unfolding e Place_order by (auto simp: c)
  qed
qed

lemma foldl_step_order_items:
  "\<exists>more. order_items (foldl (step h) db events) = order_items db @ more"
proof (induction events arbitrary: db)
  case Nil
  show ?case by simp
next
  case (Cons e es)
  obtain m1 where m1: "order_items (step h db e) = order_items db @ m1"
    using step_order_items by blast
  obtain m2 where "order_items (foldl (step h) (step h db e) es) = order_items (step h db e) @ m2"
    using Cons.IH by blast
  with m1 show ?case by simp
qed

text \<open>
  What holds of every successful \<open>create_order\<close>. Each order item carries the quantity,
  the price and the subtotal of its line, and for the lines that \<open>get_cart_items\<close>
  returns its subtotal is its quantity times its unit price; the stored order items stay
  as they are whatever the products table becomes and whatever operations follow. The
  total of the order is the sum of the subtotals when one of them is a \<open>float\<close>; when all
  of them are \<open>int\<close>, it is the eight bytes of that sum.
\<close>

lemma order_rows_from_cart_lines:
  assumes placed: "create_order conn faults now db customer_id items address payment
                     = (Inr (Some order_id), db')"
  shows "orders db' = orders db @ [last (orders db')] \<and>
         od_order_id (last (orders db')) = order_id \<and>
         od_total_amount (last (orders db')) = bind_parameter (subtotal_sum items) \<and>
         order_items db' = order_items db @ order_items_for order_id (seq_order_items db) items \<and>
         map oi_quantity (order_items_for order_id (seq_order_items db) items)
           = map cl_quantity items \<and>
         map oi_unit_price (order_items_for order_id (seq_order_items db) items)
           = map cl_price items \<and>
         map oi_subtotal (order_items_for order_id (seq_order_items db) items)
           = map (\<lambda>l. value_of (cl_subtotal l)) items \<and>
         (items = get_cart_items conn0 db0 customer0 \<longrightarrow>
            list_all (\<lambda>r. oi_order_id r = order_id \<and>
                           oi_subtotal r = of_int (oi_quantity r) * oi_unit_price r)
              (order_items_for order_id (seq_order_items db) items)) \<and>
         order_items (db'\<lparr>products := ps\<rparr>) = order_items db' \<and>
         (\<exists>more. order_items (foldl (step h) db' events) = order_items db' @ more)"
proof -
  from create_order_cases [OF placed]
  have oid: "order_id = seq_orders db + 1"
    and db': "db' = order_placed now db customer_id items address payment"
    by auto
  have 1: "orders db' = orders db @ [last (orders db')]"
    and 2: "od_order_id (last (orders db')) = order_id"
    and 3: "od_total_amount (last (orders db')) = bind_parameter (subtotal_sum items)"
    and 4: "order_items db' = order_items db @ order_items_for order_id (seq_order_items db) items"
    by (simp_all add: db' oid order_placed_def)
  have 6: "map oi_quantity (order_items_for order_id (seq_order_items db) items)
           = map cl_quantity items"
    "map oi_unit_price (order_items_for order_id (seq_order_items db) items)
           = map cl_price items"
    "map oi_subtotal (order_items_for order_id (seq_order_items db) items)
           = map (\<lambda>l. value_of (cl_subtotal l)) items"
    by (rule order_items_for_columns)+
  have 7: "list_all (\<lambda>r. oi_order_id r = order_id \<and>
                        oi_subtotal r = of_int (oi_quantity r) * oi_unit_price r)
           (order_items_for order_id (seq_order_items db) items)"
    if "items = get_cart_items conn0 db0 customer0"
    unfolding that by (rule order_items_for_subtotal) (rule get_cart_items_subtotal)
  have 8: "order_items (db'\<lparr>products := ps\<rparr>) = order_items db'" by simp
  have 9: "\<exists>more. order_items (foldl (step h) db' events) = order_items db' @ more"
    by (rule foldl_step_order_items)
  from 1 2 3 4 6 7 8 9 show ?thesis by blast
qed

lemma stored_total_cases:
  "(\<not> list_all (\<lambda>item. is_int (cl_subtotal item)) items \<longrightarrow>
      bind_parameter (subtotal_sum items)
        = Number (sum_list (map (\<lambda>item. value_of (cl_subtotal item)) items))) \<and>
   (items \<noteq> [] \<and> list_all (\<lambda>item. is_int (cl_subtotal item)) items \<longrightarrow>
      bind_parameter (subtotal_sum items)
        = Blob (int64_bytes (sum_list (map (\<lambda>item. \<lfloor>value_of (cl_subtotal item)\<rfloor>) items))))"
  by (auto simp: subtotal_sum_def)

lemma whole_price_int_subtotal:
  "list_all (\<lambda>item. is_int (cl_subtotal item) = is_whole (cl_price item))
     (get_cart_items conn db customer_id)"
  by (auto simp: get_cart_items_def list_all_iff cart_line_of_def split: if_splits)

lemma whole_prices_are_int:
  "list_all (\<lambda>item. is_int (cl_subtotal item)) (get_cart_items conn db customer_id) \<longleftrightarrow>
   list_all (\<lambda>item. is_whole (cl_price item)) (get_cart_items conn db customer_id)"
  using whole_price_int_subtotal [of conn db customer_id]
  by (auto simp: list_all_iff)

text \<open>
  Claim C4 says that the total of the created order is the sum of the subtotals of the
  lines. The code computes that sum and hands it to the \<open>INSERT\<close>, but as the
  \<open>numpy.int64\<close> that pandas returns when every price in the cart is a whole number:
  customer 1 orders two gadgets at 4, the order item has the subtotal 8, and the order's
  \<open>total_amount\<close> is the eight bytes 8, 0, 0, 0, 0, 0, 0, 0, which is not the number 8.
\<close>

theorem order_total_stored_as_bytes:
  "map (\<lambda>l. (cl_quantity l, cl_price l, cl_subtotal l)) (get_cart_items True gadget_cart 1)
     = [(2, 4, Py_int 8)] \<and>
   fst (create_order True no_faults 9 gadget_cart 1 (get_cart_items True gadget_cart 1)
          ''home'' ''PayPal'') = Inr (Some 1) \<and>
   map od_total_amount
     (orders (snd (create_order True no_faults 9 gadget_cart 1
                     (get_cart_items True gadget_cart 1) ''home'' ''PayPal'')))
     = [Blob [8, 0, 0, 0, 0, 0, 0, 0]] \<and>
   map (\<lambda>r. (oi_quantity r, oi_unit_price r, oi_subtotal r))
     (order_items (snd (create_order True no_faults 9 gadget_cart 1
                          (get_cart_items True gadget_cart 1) ''home'' ''PayPal'')))
     = [(2, 4, 8)]"
  by code_simp

text \<open>
  With a price that is not whole in the cart, the total is the number the claim says: at
  the example shop, 3 at 4 and 1 at 5/2 give 29/2.
\<close>

lemma order_total_of_the_shop:
  "map od_total_amount
     (orders (snd (create_order True no_faults 9 shop 1 (get_cart_items True shop 1)
                     ''home'' ''PayPal'')))
     = [Number (29 / 2)] \<and>
   map oi_subtotal
     (order_items (snd (create_order True no_faults 9 shop 1 (get_cart_items True shop 1)
                     ''home'' ''PayPal'')))
     = [12, 5 / 2]"
  by code_simp

section \<open>One cart entry per customer and product\<close>

text \<open>
  \<open>add_to_cart\<close> finds an entry for the pair exactly when the pair is in the cart; it
  then changes quantities only, and otherwise appends one entry. No operation adds a
  cart entry in any other way.
\<close>

lemma find_in_cart_None:
  "find (in_cart customer_id product_id) (cart db) = None \<longleftrightarrow>
     (customer_id, product_id) \<notin> set (cart_pairs db)"
  by (auto simp: find_None_iff cart_pairs_def in_cart_def)

lemma find_append_None: "find P xs = None \<Longrightarrow> find P (xs @ ys) = find P ys"
  by (induction xs) (simp_all split: if_splits)

lemma add_to_cart_existing:
  assumes "find (in_cart customer_id product_id) (cart db) = Some existing"
  shows "add_to_cart True now db customer_id product_id quantity =
           (True, db\<lparr>cart := map (\<lambda>c. if in_cart customer_id product_id c
                                         then c\<lparr>ca_quantity := ca_quantity c + quantity\<rparr>
                                         else c) (cart db)\<rparr>)"
    and "cart_pairs (snd (add_to_cart True now db customer_id product_id quantity)) = cart_pairs db"
  using assms by (simp_all add: add_to_cart_def cart_pairs_def o_def)

lemma add_to_cart_new:
  assumes "find (in_cart customer_id product_id) (cart db) = None"
  shows "add_to_cart True now db customer_id product_id quantity =
           (True, db\<lparr>cart := cart db @
                         [\<lparr>ca_cart_id = seq_cart db + 1, ca_customer_id = customer_id,
                           ca_product_id = product_id, ca_quantity = quantity,
                           ca_added_at = now\<rparr>],
                       seq_cart := seq_cart db + 1\<rparr>)"
  using assms by (simp add: add_to_cart_def)

lemma add_to_cart_distinct:
  assumes "distinct (cart_pairs db)"
  shows "distinct (cart_pairs (snd (add_to_cart conn now db customer_id product_id quantity)))"
proof (cases "find (in_cart customer_id product_id) (cart db)")
  case None
  then have "(customer_id, product_id) \<notin> set (cart_pairs db)"
    by (simp add: find_in_cart_None)
  with assms None show ?thesis
    by (simp add: add_to_cart_def cart_pairs_def)
next
  case (Some existing)
  show ?thesis
  proof (cases conn)
    case True
    with assms add_to_cart_existing(2) [OF Some] show ?thesis by simp
  next
    case False
    with assms show ?thesis by (simp add: add_to_cart_def)
  qed
qed

lemma clear_cart_distinct:
  "distinct (cart_pairs db) \<Longrightarrow> distinct (cart_pairs (clear_cart conn db customer_id))"
  by (simp add: clear_cart_def cart_pairs_def distinct_map_filter)

lemma create_order_cart:
  "cart (snd (create_order conn faults now db customer_id items address payment)) = cart db"
proof -
  obtain r db' where
    eq: "create_order conn faults now db customer_id items address payment = (r, db')"
    by (cases "create_order conn faults now db customer_id items address payment")
  from create_order_cases [OF eq] eq show ?thesis
    by (auto simp: order_placed_def)
qed

lemma step_cart_distinct:
  assumes "distinct (cart_pairs db)"
  shows "distinct (cart_pairs (step h db e))"
proof -
  obtain conn now faults op where e: "e = (conn, now, faults, op)"
    by (cases e) auto
  show ?thesis
  proof (cases op)
    case (Register data)
    with assms e show ?thesis by (simp add: register_customer_def cart_pairs_def)
  next
    case (Add_category name description)
    with assms e show ?thesis by (simp add: add_category_def cart_pairs_def)
  next
    case (Add_product data)
    with assms e show ?thesis
      by (simp add: add_product_def cart_pairs_def split: option.splits)
  next
    case (Add_to_cart customer_id product_id quantity)
    with assms e show ?thesis by (simp add: add_to_cart_distinct)
  next
    case (Clear_cart customer_id)
    with assms e show ?thesis by (simp add: clear_cart_distinct)
  next
    case (Create_order customer_id items address payment)
    with assms e show ?thesis by (simp add: cart_pairs_def create_order_cart)
  next
    case (Place_order customer_id address payment)
    let ?d = "snd (create_order conn faults now db customer_id
                (get_cart_items conn db customer_id) address payment)"
    have d: "distinct (cart_pairs ?d)"
      using assms by (simp add: cart_pairs_def create_order_cart)
    from place_order_clicked_cases [of conn faults now db customer_id address payment]
      assms d clear_cart_distinct [OF d, of conn customer_id]
    show ?thesis unfolding e Place_order by auto
  qed
qed

lemma foldl_step_cart_distinct:
  "distinct (cart_pairs db) \<Longrightarrow> distinct (cart_pairs (foldl (step h) db events))"
  by (induction events arbitrary: db) (simp_all add: step_cart_distinct)

lemma add_to_cart_twice:
  assumes "(customer_id, product_id) \<notin> set (cart_pairs db)"
  shows "cart (snd (add_to_cart True now' (snd (add_to_cart True now db customer_id product_id q))
                 customer_id product_id q'))
         = cart db @ [\<lparr>ca_cart_id = seq_cart db + 1, ca_customer_id = customer_id,
                        ca_product_id = product_id, ca_quantity = q + q', ca_added_at = now\<rparr>]"
proof -
  from assms have none: "find (in_cart customer_id product_id) (cart db) = None"
    by (simp add: find_in_cart_None)
  have keep: "map (\<lambda>c. if in_cart customer_id product_id c
                        then c\<lparr>ca_quantity := ca_quantity c + q'\<rparr> else c) (cart db) = cart db"
    using none by (intro map_idI) (auto simp: find_None_iff)
  let ?new = "\<lparr>ca_cart_id = seq_cart db + 1, ca_customer_id = customer_id,
               ca_product_id = product_id, ca_quantity = q, ca_added_at = now\<rparr>"
  have "find (in_cart customer_id product_id) (cart db @ [?new]) = Some ?new"
    using none by (simp add: find_append_None in_cart_def)
  then show ?thesis
    using none keep by (simp add: add_to_cart_def in_cart_def)
qed

text \<open>
  Claim C3. In every state reached from the empty store, no two cart entries have the
  same customer and product. When the cart has an entry for the pair, \<open>add_to_cart\<close>
  adds the given quantity to that entry and inserts nothing; when it has none,
  \<open>add_to_cart\<close> inserts one entry with the given quantity, and a second call for the
  pair leaves that single entry with the sum of the two quantities. Adding 2 of product 5
  for customer 1 twice, from the empty store, gives one entry with quantity 4.
\<close>

theorem one_cart_entry_per_pair:
  "distinct (cart_pairs (run h events)) \<and>
   (find (in_cart customer_id product_id) (cart db) \<noteq> None \<longrightarrow>
      add_to_cart True now db customer_id product_id quantity =
        (True, db\<lparr>cart := map (\<lambda>c. if in_cart customer_id product_id c
                                      then c\<lparr>ca_quantity := ca_quantity c + quantity\<rparr>
                                      else c) (cart db)\<rparr>) \<and>
      cart_pairs (snd (add_to_cart True now db customer_id product_id quantity)) = cart_pairs db) \<and>
   (find (in_cart customer_id product_id) (cart db) = None \<longrightarrow>
      add_to_cart True now db customer_id product_id quantity =
        (True, db\<lparr>cart := cart db @
                      [\<lparr>ca_cart_id = seq_cart db + 1, ca_customer_id = customer_id,
                        ca_product_id = product_id, ca_quantity = quantity,
                        ca_added_at = now\<rparr>],
                    seq_cart := seq_cart db + 1\<rparr>) \<and>
      cart (snd (add_to_cart True now' (snd (add_to_cart True now db customer_id product_id quantity))
                   customer_id product_id quantity'))
        = cart db @ [\<lparr>ca_cart_id = seq_cart db + 1, ca_customer_id = customer_id,
                       ca_product_id = product_id, ca_quantity = quantity + quantity',
                       ca_added_at = now\<rparr>]) \<and>
   map (\<lambda>c. (ca_customer_id c, ca_product_id c, ca_quantity c))
     (cart (snd (add_to_cart True now' (snd (add_to_cart True now init_database 1 5 2)) 1 5 2)))
     = [(1, 5, 4)]"
proof (intro conjI impI)
  show "distinct (cart_pairs (run h events))"
    unfolding run_def
    by (rule foldl_step_cart_distinct) (simp add: cart_pairs_def init_database_def)
next
  assume "find (in_cart customer_id product_id) (cart db) \<noteq> None"
  then obtain existing where
    ex: "find (in_cart customer_id product_id) (cart db) = Some existing" by blast
  show "add_to_cart True now db customer_id product_id quantity =
        (True, db\<lparr>cart := map (\<lambda>c. if in_cart customer_id product_id c
                                      then c\<lparr>ca_quantity := ca_quantity c + quantity\<rparr>
                                      else c) (cart db)\<rparr>)"
    by (rule add_to_cart_existing [OF ex])
  show "cart_pairs (snd (add_to_cart True now db customer_id product_id quantity)) = cart_pairs db"
    by (rule add_to_cart_existing [OF ex])
next
  assume none: "find (in_cart customer_id product_id) (cart db) = None"
  show "add_to_cart True now db customer_id product_id quantity =
        (True, db\<lparr>cart := cart db @
                      [\<lparr>ca_cart_id = seq_cart db + 1, ca_customer_id = customer_id,
                        ca_product_id = product_id, ca_quantity = quantity,
                        ca_added_at = now\<rparr>],
                    seq_cart := seq_cart db + 1\<rparr>)"
    by (rule add_to_cart_new [OF none])
  from none have "(customer_id, product_id) \<notin> set (cart_pairs db)"
    by (simp add: find_in_cart_None)
  then show "cart (snd (add_to_cart True now' (snd (add_to_cart True now db customer_id product_id quantity))
                   customer_id product_id quantity'))
        = cart db @ [\<lparr>ca_cart_id = seq_cart db + 1, ca_customer_id = customer_id,
                       ca_product_id = product_id, ca_quantity = quantity + quantity',
                       ca_added_at = now\<rparr>]"
    by (rule add_to_cart_twice)
next
  have "(1, 5) \<notin> set (cart_pairs init_database)"
    by (simp add: cart_pairs_def init_database_def)
  from add_to_cart_twice [OF this, of now' now 2 2]
  show "map (\<lambda>c. (ca_customer_id c, ca_product_id c, ca_quantity c))
     (cart (snd (add_to_cart True now' (snd (add_to_cart True now init_database 1 5 2)) 1 5 2)))
     = [(1, 5, 4)]"
    by (simp add: init_database_def)
qed

text \<open>
  The theorem at the example shop: customer 1 has product 2 in the cart and adds 4 more;
  customer 2 has nothing in the cart and adds product 2 twice.
\<close>

theorem one_cart_entry_per_pair_witness:
  "find (in_cart 1 2) (cart shop) \<noteq> None \<and>
   map ca_quantity (cart shop) = [3, 1] \<and>
   map ca_quantity (cart (snd (add_to_cart True 5 shop 1 2 4))) = [7, 1] \<and>
   cart_pairs (snd (add_to_cart True 5 shop 1 2 4)) = cart_pairs shop \<and>
   find (in_cart 2 2) (cart shop) = None \<and>
   map ca_quantity (cart (snd (add_to_cart True 5 shop 2 2 4))) = [3, 1, 4] \<and>
   map ca_quantity (cart (snd (add_to_cart True 6 (snd (add_to_cart True 5 shop 2 2 4)) 2 2 1)))
     = [3, 1, 5] \<and>
   distinct (cart_pairs (run id buy_two))"
proof -
  have a: "find (in_cart 1 2) (cart shop) \<noteq> None" by code_simp
  have b: "find (in_cart 2 2) (cart shop) = None" by code_simp
  have c: "map ca_quantity (cart shop) = [3, 1]" by code_simp
  have d: "map (\<lambda>c. if in_cart 1 2 c then c\<lparr>ca_quantity := ca_quantity c + 4\<rparr> else c) (cart shop)
             = [\<lparr>ca_cart_id = 1, ca_customer_id = 1, ca_product_id = 2, ca_quantity = 7, ca_added_at = 3\<rparr>,
                \<lparr>ca_cart_id = 2, ca_customer_id = 1, ca_product_id = 1, ca_quantity = 1, ca_added_at = 4\<rparr>]"
    by code_simp
  note t1 = one_cart_entry_per_pair [of id buy_two 1 2 shop 5 4 6 1]
  note t2 = one_cart_entry_per_pair [of id buy_two 2 2 shop 5 4 6 1]
  from t1 a have e: "add_to_cart True 5 shop 1 2 4 =
      (True, shop\<lparr>cart := map (\<lambda>c. if in_cart 1 2 c then c\<lparr>ca_quantity := ca_quantity c + 4\<rparr>
                                      else c) (cart shop)\<rparr>)"
    and f: "cart_pairs (snd (add_to_cart True 5 shop 1 2 4)) = cart_pairs shop"
    and g: "distinct (cart_pairs (run id buy_two))"
    by blast+
  from t2 b have h: "add_to_cart True 5 shop 2 2 4 =
        (True, shop\<lparr>cart := cart shop @
                      [\<lparr>ca_cart_id = seq_cart shop + 1, ca_customer_id = 2,
                        ca_product_id = 2, ca_quantity = 4, ca_added_at = 5\<rparr>],
                    seq_cart := seq_cart shop + 1\<rparr>)"
    and i: "cart (snd (add_to_cart True 6 (snd (add_to_cart True 5 shop 2 2 4)) 2 2 1))
        = cart shop @ [\<lparr>ca_cart_id = seq_cart shop + 1, ca_customer_id = 2,
                       ca_product_id = 2, ca_quantity = 4 + 1, ca_added_at = 5\<rparr>]"
    by blast+
  have j: "map ca_quantity (cart (snd (add_to_cart True 5 shop 1 2 4))) = [7, 1]"
    by (simp add: e d)
  have k: "map ca_quantity (cart (snd (add_to_cart True 5 shop 2 2 4))) = [3, 1, 4]"
    using c by (simp add: h)
  have l: "map ca_quantity (cart (snd (add_to_cart True 6 (snd (add_to_cart True 5 shop 2 2 4)) 2 2 1)))
     = [3, 1, 5]"
    using c by (simp add: i)
  from a b c f g j k l show ?thesis by blast
qed

section \<open>Registration and login\<close>

text \<open>
  No operation removes or rewrites a customer row: the customers table only grows at
  its end. A registration returns \<open>True\<close> only when the email was not in the table, and
  then appends the new row.
\<close>

lemma create_order_customers:
  "customers (snd (create_order conn faults now db customer_id items address payment)) = customers db"
proof -
  obtain r db' where
    eq: "create_order conn faults now db customer_id items address payment = (r, db')"
    by (cases "create_order conn faults now db customer_id items address payment")
  from create_order_cases [OF eq] eq show ?thesis
    by (auto simp: order_placed_def)
qed

lemma step_customers: "\<exists>more. customers (step h db e) = customers db @ more"
proof -
  obtain conn now faults op where e: "e = (conn, now, faults, op)"
    by (cases e) auto
  show ?thesis
  proof (cases op)
    case (Register data)
    with e show ?thesis by (simp add: register_customer_def)
  next
    case (Add_category name description)
    with e show ?thesis by (simp add: add_category_def)
  next
    case (Add_product data)
    with e show ?thesis by (simp add: add_product_def split: option.splits)
  next
    case (Add_to_cart customer_id product_id quantity)
    with e show ?thesis by (simp add: add_to_cart_def split: option.splits)
  next
    case (Clear_cart customer_id)
    with e show ?thesis by (simp add: clear_cart_def)
  next
    case (Create_order customer_id items address payment)
    with e show ?thesis by (simp add: create_order_customers)
  next
    case (Place_order customer_id address payment)
    have c: "customers (clear_cart conn d customer_id) = customers d" for d
      by (simp add: clear_cart_def)
    from place_order_clicked_cases [of conn faults now db customer_id address payment]
    show ?thesis unfolding e Place_order by (auto simp: c create_order_customers)
  qed
qed

lemma foldl_step_customers:
  "\<exists>more. customers (foldl (step h) db events) = customers db @ more"
proof (induction events arbitrary: db)
  case Nil
  show ?case by simp
next
  case (Cons e es)
  obtain m1 where m1: "customers (step h db e) = customers db @ m1"
    using step_customers by blast
  obtain m2 where "customers (foldl (step h) (step h db e) es) = customers (step h db e) @ m2"
    using Cons.IH by blast
  with m1 show ?case by simp
qed

lemma register_customer_True:
  assumes "register_customer h conn now db data = (True, db1)"
  shows "conn" and "rg_email data \<notin> set (map cu_email (customers db))"
    and "db1 = db\<lparr>customers := customers db @ [new_customer h now db data],
                   seq_customers := seq_customers db + 1\<rparr>"
  using assms by (auto simp: register_customer_def split: if_splits)

lemma register_customer_known_email:
  "rg_email data \<in> set (map cu_email (customers db)) \<Longrightarrow>
   register_customer h conn now db data = (False, db)"
  by (simp add: register_customer_def)

text \<open>
  Claim C7. After a registration that succeeded, a registration with the same email,
  at once or after any further operations, returns \<open>False\<close> and leaves the stored
  database as it was; the row that the first call appended is still in the customers
  table, unchanged.
\<close>

theorem second_registration_fails:
  assumes first: "register_customer h conn1 now1 db data1 = (True, db1)"
      and same: "rg_email data2 = rg_email data1"
  shows "customers db1 = customers db @ [new_customer h now1 db data1] \<and>
         register_customer h conn2 now2 (foldl (step h) db1 events) data2
           = (False, foldl (step h) db1 events) \<and>
         (\<exists>more. customers (foldl (step h) db1 events)
                   = customers db @ new_customer h now1 db data1 # more)"
proof -
  let ?db2 = "foldl (step h) db1 events"
  have c1: "customers db1 = customers db @ [new_customer h now1 db data1]"
    using register_customer_True(3) [OF first] by simp
  obtain more where more: "customers ?db2 = customers db1 @ more"
    using foldl_step_customers by blast
  with c1 have c2: "customers ?db2 = customers db @ new_customer h now1 db data1 # more"
    by simp
  then have "rg_email data2 \<in> set (map cu_email (customers ?db2))"
    by (simp add: same new_customer_def)
  then have "register_customer h conn2 now2 ?db2 data2 = (False, ?db2)"
    by (rule register_customer_known_email)
  with c1 c2 show ?thesis by blast
qed

text \<open>
  The theorem at the empty store: Alice registers, then somebody else registers with her
  email. (\<open>rev\<close> stands in for the digest in the examples.)
\<close>

theorem second_registration_fails_witness:
  "register_customer rev True 1 init_database alice
     = (True, init_database\<lparr>customers := [new_customer rev 1 init_database alice],
                             seq_customers := 1\<rparr>) \<and>
   register_customer rev True 2
       (init_database\<lparr>customers := [new_customer rev 1 init_database alice], seq_customers := 1\<rparr>)
       (alice\<lparr>rg_first_name := ''Mallory'', rg_password := ''other''\<rparr>)
     = (False, init_database\<lparr>customers := [new_customer rev 1 init_database alice],
                              seq_customers := 1\<rparr>)"
proof -
  let ?db1 = "init_database\<lparr>customers := [new_customer rev 1 init_database alice],
                            seq_customers := 1\<rparr>"
  have first: "register_customer rev True 1 init_database alice = (True, ?db1)"
    by (simp add: register_customer_def init_database_def)
  have same: "rg_email (alice\<lparr>rg_first_name := ''Mallory'', rg_password := ''other''\<rparr>)
                = rg_email alice"
    by simp
  from second_registration_fails [OF first same, of True 2 "[]"] first
  show ?thesis by simp
qed




section \<open>Orders of a customer, orders of all\<close>

text \<open>Sorting on the negated date puts the latest order first.\<close>

lemma sort_key_descending:
  "sorted_wrt (\<lambda>a b. od_order_date (fst b) \<le> od_order_date (fst a))
     (sort_key (\<lambda>r. - od_order_date (fst r)) rows)"
proof -
  have "sorted (map (\<lambda>r. - od_order_date (fst r)) (sort_key (\<lambda>r. - od_order_date (fst r)) rows))"
    by (rule sorted_sort_key)
  then show ?thesis by (simp add: sorted_map)
qed

lemma get_orders_descending:
  "sorted_wrt (\<lambda>a b. od_order_date (fst b) \<le> od_order_date (fst a))
     (get_orders conn db customer_id)"
  by (simp add: get_orders_def sort_key_descending)

text \<open>
  Claim C10. \<open>get_orders\<close> with the customer identifier 0 returns what it returns with
  \<open>None\<close>: the orders of all customers (each with its customer's name and email), not
  those of customer 0. With an identifier other than 0 it returns the orders of that
  customer. In each case the rows are the rows of the join, every one once, ordered by
  order date, latest first.
\<close>

theorem get_orders_falsy_customer_is_all:
  "get_orders conn db (Some 0) = get_orders conn db None \<and>
   (conn \<longrightarrow> mset (get_orders conn db None) = mset (orders_with_customer db (orders db))) \<and>
   (conn \<and> customer_id \<noteq> 0 \<longrightarrow>
      mset (get_orders conn db (Some customer_id)) =
      mset (orders_with_customer db
              (filter (\<lambda>ord. od_customer_id ord = customer_id) (orders db)))) \<and>
   sorted_wrt (\<lambda>a b. od_order_date (fst b) \<le> od_order_date (fst a))
     (get_orders conn db (Some 0))"
proof (intro conjI impI)
  show "get_orders conn db (Some 0) = get_orders conn db None"
    by (simp add: get_orders_def truthy_def)
  show "mset (get_orders conn db None) = mset (orders_with_customer db (orders db))" if conn
    using that by (simp add: get_orders_def truthy_def)
  show "mset (get_orders conn db (Some customer_id)) =
      mset (orders_with_customer db
              (filter (\<lambda>ord. od_customer_id ord = customer_id) (orders db)))"
    if "conn \<and> customer_id \<noteq> 0"
    using that by (simp add: get_orders_def truthy_def)
  show "sorted_wrt (\<lambda>a b. od_order_date (fst b) \<le> od_order_date (fst a))
     (get_orders conn db (Some 0))"
    by (rule get_orders_descending)
qed

text \<open>
  The theorem in the store where Alice, customer 1, has placed two orders: asking for
  customer 0 returns both, latest first, though customer 0 has none.
\<close>

theorem get_orders_falsy_customer_is_all_witness:
  "map (\<lambda>r. (od_order_id (fst r), od_customer_id (fst r), od_order_date (fst r)))
     (get_orders True (run rev alice_buys) (Some 0)) = [(2, 1, 6), (1, 1, 4)] \<and>
   get_orders True (run rev alice_buys) None = get_orders True (run rev alice_buys) (Some 0) \<and>
   mset (get_orders True (run rev alice_buys) (Some 1))
     = mset (orders_with_customer (run rev alice_buys)
               (filter (\<lambda>ord. od_customer_id ord = 1) (orders (run rev alice_buys)))) \<and>
   mset (get_orders True (run rev alice_buys) None)
     = mset (orders_with_customer (run rev alice_buys) (orders (run rev alice_buys))) \<and>
   orders_with_customer (run rev alice_buys)
     (filter (\<lambda>ord. od_customer_id ord = 0) (orders (run rev alice_buys))) = []"
proof -
  have b: "orders_with_customer (run rev alice_buys)
     (filter (\<lambda>ord. od_customer_id ord = 0) (orders (run rev alice_buys))) = []"
    by code_simp
  have a: "map (\<lambda>r. (od_order_id (fst r), od_customer_id (fst r), od_order_date (fst r)))
     (get_orders True (run rev alice_buys) (Some 0)) = [(2, 1, 6), (1, 1, 4)]"
    by code_simp
  from a b get_orders_falsy_customer_is_all [of True "run rev alice_buys" 1]
  show ?thesis by simp
qed

section \<open>Adding a product\<close>









section \<open>Searching the product list\<close>

text \<open>
  Two characters have the same uppercase form exactly when they are equal up to case.
\<close>

lemma letters_length: "length ascii_lowercase = length ascii_uppercase"
  by (simp add: ascii_lowercase_def ascii_uppercase_def)

lemma letters_distinct: "distinct ascii_lowercase" "distinct ascii_uppercase"
  by (simp_all add: ascii_lowercase_def ascii_uppercase_def)

lemma letters_disjoint: "c \<in> set ascii_lowercase \<Longrightarrow> c \<notin> set ascii_uppercase"
  by (auto simp: ascii_lowercase_def ascii_uppercase_def)

lemma letter_pair:
  assumes "(a, b) \<in> set (zip ascii_lowercase ascii_uppercase)"
  shows "a \<in> set ascii_lowercase" and "b \<in> set ascii_uppercase"
    and "map_of (zip ascii_lowercase ascii_uppercase) a = Some b"
proof -
  show "a \<in> set ascii_lowercase" using assms by (rule set_zip_leftD)
  show "b \<in> set ascii_uppercase" using assms by (rule set_zip_rightD)
  have "distinct (map fst (zip ascii_lowercase ascii_uppercase))"
    by (simp add: letters_length letters_distinct)
  then show "map_of (zip ascii_lowercase ascii_uppercase) a = Some b"
    using assms by (rule map_of_is_SomeI)
qed

lemma letter_pair_inj:
  assumes "(a, c) \<in> set (zip ascii_lowercase ascii_uppercase)"
      and "(b, c) \<in> set (zip ascii_lowercase ascii_uppercase)"
  shows "a = b"
proof -
  have "distinct (map snd (zip ascii_lowercase ascii_uppercase))"
    by (simp add: letters_length letters_distinct)
  then have "inj_on snd (set (zip ascii_lowercase ascii_uppercase))"
    by (simp add: distinct_map)
  from inj_onD [OF this _ assms] show ?thesis by simp
qed

lemma upper_char_other: "c \<notin> set ascii_lowercase \<Longrightarrow> upper_char c = c"
proof -
  assume "c \<notin> set ascii_lowercase"
  then have "map_of (zip ascii_lowercase ascii_uppercase) c = None"
    by (simp add: map_of_zip_is_None letters_length)
  then show ?thesis by (simp add: upper_char_def)
qed

lemma upper_char_letter:
  "c \<in> set ascii_lowercase \<Longrightarrow> (c, upper_char c) \<in> set (zip ascii_lowercase ascii_uppercase)"
proof -
  assume "c \<in> set ascii_lowercase"
  then obtain u where u: "map_of (zip ascii_lowercase ascii_uppercase) c = Some u"
    using map_of_zip_is_Some [OF letters_length, of c] by blast
  then have "(c, u) \<in> set (zip ascii_lowercase ascii_uppercase)" by (rule map_of_SomeD)
  with u show ?thesis by (simp add: upper_char_def)
qed

lemma upper_char_eq_iff: "upper_char a = upper_char b \<longleftrightarrow> ci_eq a b"
proof (cases "a \<in> set ascii_lowercase"; cases "b \<in> set ascii_lowercase")
  assume a: "a \<in> set ascii_lowercase" and b: "b \<in> set ascii_lowercase"
  note pa = upper_char_letter [OF a] and pb = upper_char_letter [OF b]
  have "upper_char a = upper_char b \<longleftrightarrow> a = b"
    using pa pb letter_pair_inj by metis
  moreover have "(a, b) \<notin> set (zip ascii_lowercase ascii_uppercase)"
    using letter_pair(2) letters_disjoint [OF b] by blast
  moreover have "(b, a) \<notin> set (zip ascii_lowercase ascii_uppercase)"
    using letter_pair(2) letters_disjoint [OF a] by blast
  ultimately show ?thesis by (simp add: ci_eq_def)
next
  assume a: "a \<in> set ascii_lowercase" and b: "b \<notin> set ascii_lowercase"
  note pa = upper_char_letter [OF a]
  have "upper_char a = b \<longleftrightarrow> (a, b) \<in> set (zip ascii_lowercase ascii_uppercase)"
    using pa letter_pair(3) by (metis option.inject)
  moreover have "(b, a) \<notin> set (zip ascii_lowercase ascii_uppercase)"
    using letter_pair(1) b by blast
  moreover have "a \<noteq> b" using a b by blast
  ultimately show ?thesis by (simp add: ci_eq_def upper_char_other [OF b])
next
  assume a: "a \<notin> set ascii_lowercase" and b: "b \<in> set ascii_lowercase"
  note pb = upper_char_letter [OF b]
  have "a = upper_char b \<longleftrightarrow> (b, a) \<in> set (zip ascii_lowercase ascii_uppercase)"
    using pb letter_pair(3) by (metis option.inject)
  moreover have "(a, b) \<notin> set (zip ascii_lowercase ascii_uppercase)"
    using letter_pair(1) a by blast
  moreover have "a \<noteq> b" using a b by blast
  ultimately show ?thesis by (simp add: ci_eq_def upper_char_other [OF a])
next
  assume a: "a \<notin> set ascii_lowercase" and b: "b \<notin> set ascii_lowercase"
  have "(a, b) \<notin> set (zip ascii_lowercase ascii_uppercase)"
    using letter_pair(1) a by blast
  moreover have "(b, a) \<notin> set (zip ascii_lowercase ascii_uppercase)"
    using letter_pair(1) b by blast
  ultimately show ?thesis
    by (simp add: ci_eq_def upper_char_other [OF a] upper_char_other [OF b])
qed

lemma ci_eq_sym: "ci_eq a b \<longleftrightarrow> ci_eq b a"
  by (auto simp: ci_eq_def)

lemma begins_with_ci_Nil: "begins_with_ci [] s"
  by (simp add: begins_with_ci_def)

lemma begins_with_ci_Cons_Nil: "\<not> begins_with_ci (c # f) []"
  by (simp add: begins_with_ci_def)

lemma begins_with_ci_Cons_Cons:
  "begins_with_ci (c # f) (x # xs) \<longleftrightarrow> ci_eq x c \<and> begins_with_ci f xs"
  by (auto simp: begins_with_ci_def)

text \<open>
  A search text without special characters is a pattern that matches itself: the search
  then finds the names that contain the text, ignoring case.
\<close>

lemma match_here_literal: "match_here (map Lit f) s \<longleftrightarrow> begins_with_ci f s"
proof (induction f arbitrary: s)
  case Nil
  show ?case by (simp add: begins_with_ci_Nil)
next
  case (Cons c f)
  show ?case
  proof (cases s)
    case Nil
    then show ?thesis by (simp add: begins_with_ci_Cons_Nil)
  next
    case (Cons x xs)
    with Cons.IH [of xs] show ?thesis
      by (simp add: begins_with_ci_Cons_Cons upper_char_eq_iff ci_eq_sym [of c x])
  qed
qed

lemma re_search_literal: "re_search (map Lit f) s \<longleftrightarrow> contains_ci f s"
proof (induction s)
  case Nil
  show ?case by (cases f) simp_all
next
  case (Cons x xs)
  then show ?case by (simp add: match_here_literal)
qed

lemma parse_pattern_plain:
  "list_all (\<lambda>c. \<not> re_special c) f \<Longrightarrow> parse_pattern f = Some (map Lit f)"
proof (induction f)
  case Nil
  show ?case by simp
next
  case (Cons c f)
  then have "c \<noteq> CHR ''.''" by (auto simp: re_special_def)
  with Cons show ?case by simp
qed

lemma str_contains_plain:
  "list_all (\<lambda>c. \<not> re_special c) f \<Longrightarrow> str_contains f s = Some (contains_ci f s)"
  by (simp add: str_contains_def parse_pattern_plain re_search_literal)

lemma contains_ci_Nil: "contains_ci [] s"
  by (induction s) (simp_all add: begins_with_ci_Nil)

lemma list_products_plain:
  assumes "list_all (\<lambda>c. \<not> re_special c) search"
  shows "map_option mset (list_products search category_filter sort_by rows) =
           Some (mset (filter (\<lambda>r. contains_ci search (pr_product_name (fst r)) \<and>
                                (category_filter = ''All'' \<or> snd r = Some category_filter)) rows))"
proof -
  have p: "parse_pattern search = Some (map Lit search)"
    using assms by (rule parse_pattern_plain)
  have f: "filter (\<lambda>r. snd r = Some category_filter)
             (filter (\<lambda>r. contains_ci search (pr_product_name (fst r))) rows)
         = filter (\<lambda>r. contains_ci search (pr_product_name (fst r)) \<and>
                       snd r = Some category_filter) rows"
    by (simp add: conj_commute)
  show ?thesis
  proof (cases "category_filter = ''All''")
    case True
    then show ?thesis
      by (cases "search = []") (simp_all add: list_products_def Let_def p re_search_literal contains_ci_Nil)
  next
    case False
    then show ?thesis
      by (cases "search = []")
         (simp_all add: list_products_def Let_def p re_search_literal contains_ci_Nil f del: filter_filter)
  qed
qed

text \<open>The listing comes back in the order asked for.\<close>

lemma list_products_sorted:
  assumes "list_products search category_filter sort_by rows = Some found"
  shows "if sort_by = ''Name'' then sorted (map (\<lambda>r. pr_product_name (fst r)) found)
         else if sort_by = ''Price: Low to High'' then sorted (map (\<lambda>r. pr_price (fst r)) found)
         else sorted_wrt (\<lambda>a b. pr_price (fst b) \<le> pr_price (fst a)) found"
proof -
  have d: "sorted_wrt (\<lambda>a b. pr_price (fst b) \<le> pr_price (fst a))
             (sort_key (\<lambda>r. - pr_price (fst r)) xs)"
    for xs :: "(product_row \<times> string option) list"
  proof -
    have "sorted (map (\<lambda>r. - pr_price (fst r)) (sort_key (\<lambda>r. - pr_price (fst r)) xs))"
      by (rule sorted_sort_key)
    then show ?thesis by (simp add: sorted_map)
  qed
  from assms show ?thesis
    by (auto simp: list_products_def Let_def d split: option.splits if_splits)
qed

text \<open>The example of the specification: \<open>WIDGET\<close> is found in \<open>widget-9000\<close>.\<close>

lemma widget_example: "contains_ci ''WIDGET'' ''widget-9000''"
  by code_simp

text \<open>
  Claim C6 says that the listing returns exactly the products whose name contains the
  filter text, ignoring case. The code hands the filter text to \<open>str.contains\<close> as a
  regular expression: the filter \<open>w.dget\<close> lists the product \<open>widget-9000\<close>, whose name
  does not contain \<open>w.dget\<close>.
\<close>

theorem search_text_is_a_pattern:
  "list_products ''w.dget'' ''All'' ''Name'' widget_rows = Some widget_rows \<and>
   map (\<lambda>r. pr_product_name (fst r)) widget_rows = [''widget-9000''] \<and>
   \<not> contains_ci ''w.dget'' ''widget-9000''"
  by code_simp

end
